theory Spec2Isabelle
  imports Complex_Main
begin

section \<open>Numbers, tensors and the tensor operations the classifier calls\<close>

text \<open>
  The classifier of \<^verbatim>\<open>src/models/logistic-regression.js\<close> computes with
  32-bit floating point tensors of the tensor library.  Here a number is a real
  (rounding, overflow and saturation of the sigmoid are left out), and a tensor of
  rank two is the list of its rows.  Where exact arithmetic would leave the finite
  numbers (a division by zero, arithmetic on a field that is absent) the model
  answers \<open>Inl NonFinite\<close>: the JavaScript goes on with NaN or Infinity there, which
  the reals do not have.  Where the tensor library rejects its arguments the model
  answers \<open>Inl ShapeMismatch\<close> or \<open>Inl MissingOption\<close>.  An operation on two tensors
  is followed on equal shapes only: on unequal shapes the library throws, except where
  it would broadcast a dimension of size one, which a one-column label matrix with as
  many rows as the feature matrix never needs; the model answers
  \<open>Inl ShapeMismatch\<close> for all of them.
\<close>

type_synonym tensor = "real list list"

datatype error = ShapeMismatch | NonFinite | MissingOption | NonTermination

definition rowsT :: "tensor \<Rightarrow> nat" where
  \<comment> \<open>\<^verbatim>\<open>t.shape[0]\<close>\<close>
  "rowsT A = length A"

definition colsT :: "tensor \<Rightarrow> nat" where
  \<comment> \<open>\<^verbatim>\<open>t.shape[1]\<close>\<close>
  "colsT A = (case A of [] \<Rightarrow> 0 | r # _ \<Rightarrow> length r)"

definition hasShape :: "nat \<Rightarrow> nat \<Rightarrow> tensor \<Rightarrow> bool" where
  "hasShape r c A \<longleftrightarrow> length A = r \<and> list_all (\<lambda>row. length row = c) A"

definition tensor2d :: "real list list \<Rightarrow> error + tensor" where
  \<comment> \<open>\<^verbatim>\<open>tensor(a)\<close> on a nested array: the rows must have one length.  An empty
      array gives a tensor of rank one, which no later operation of the classifier
      accepts beside a tensor of rank two.\<close>
  "tensor2d a = (if a \<noteq> [] \<and> list_all (\<lambda>row. length row = colsT a) a then Inr a
                 else Inl ShapeMismatch)"

definition column :: "nat \<Rightarrow> tensor \<Rightarrow> real list" where
  "column j A = map (\<lambda>row. row ! j) A"

definition transposeT :: "tensor \<Rightarrow> tensor" where
  "transposeT A = map (\<lambda>j. column j A) [0..<colsT A]"

definition dot :: "real list \<Rightarrow> real list \<Rightarrow> real" where
  "dot xs ys = sum_list (map2 (*) xs ys)"

definition matMul :: "tensor \<Rightarrow> tensor \<Rightarrow> error + tensor" where
  "matMul A B = (if colsT A = rowsT B
                 then Inr (map (\<lambda>row. map (\<lambda>j. dot row (column j B)) [0..<colsT B]) A)
                 else Inl ShapeMismatch)"

definition mapT :: "(real \<Rightarrow> real) \<Rightarrow> tensor \<Rightarrow> tensor" where
  "mapT f A = map (map f) A"

definition zipT :: "(real \<Rightarrow> real \<Rightarrow> real) \<Rightarrow> tensor \<Rightarrow> tensor \<Rightarrow> error + tensor" where
  "zipT f A B = (if map length A = map length B then Inr (map2 (map2 f) A B)
                 else Inl ShapeMismatch)"

definition subT :: "tensor \<Rightarrow> tensor \<Rightarrow> error + tensor" where
  "subT A B = zipT (\<lambda>x y. x - y) A B"

definition addT :: "tensor \<Rightarrow> tensor \<Rightarrow> error + tensor" where
  "addT A B = zipT (\<lambda>x y. x + y) A B"

definition zipRow :: "(real \<Rightarrow> real \<Rightarrow> real) \<Rightarrow> tensor \<Rightarrow> real list \<Rightarrow> error + tensor" where
  \<comment> \<open>a tensor of shape [n, c] against one of shape [c], row by row\<close>
  "zipRow f A v = (if list_all (\<lambda>row. length row = length v) A then Inr (map (\<lambda>row. map2 f row v) A)
                   else Inl ShapeMismatch)"

definition sigmoid :: "real \<Rightarrow> real" where
  "sigmoid z = 1 / (1 + exp (- z))"

definition sliceRows :: "int \<Rightarrow> int \<Rightarrow> tensor \<Rightarrow> error + tensor" where
  \<comment> \<open>\<^verbatim>\<open>t.slice([start, 0], [len, -1])\<close>: rows start .. start + len - 1, all
      columns; the library checks that the rows exist.\<close>
  "sliceRows start len A =
     (if 0 \<le> start \<and> 0 \<le> len \<and> start + len \<le> int (length A)
      then Inr (take (nat len) (drop (nat start) A))
      else Inl ShapeMismatch)"

definition zeros :: "nat \<Rightarrow> nat \<Rightarrow> tensor" where
  "zeros r c = replicate r (replicate c 0)"

definition momentsMean :: "tensor \<Rightarrow> real list" where
  \<comment> \<open>\<^verbatim>\<open>moments(t, 0).mean\<close>: the mean of every column\<close>
  "momentsMean A = map (\<lambda>j. sum_list (column j A) / real (length A)) [0..<colsT A]"

definition momentsVariance :: "tensor \<Rightarrow> real list" where
  \<comment> \<open>\<^verbatim>\<open>moments(t, 0).variance\<close>: the mean squared deviation of every column\<close>
  "momentsVariance A =
     map (\<lambda>j. sum_list (map (\<lambda>x. (x - sum_list (column j A) / real (length A))\<^sup>2) (column j A))
               / real (length A)) [0..<colsT A]"

definition sumAll :: "tensor \<Rightarrow> real" where
  "sumAll A = sum_list (map sum_list A)"

section \<open>The model instance and the options object it refers to\<close>

text \<open>
  The options are a JavaScript object: a field can be absent (\<open>None\<close>), and the
  instance holds a reference to the object, not its fields.  The state is the store of
  option objects by address together with the fields of the one instance.
\<close>

record hyper =
  learningRate :: "real option"
  iterations :: "int option"
  batchSize :: "int option"
  decisionBoundary :: "real option"

type_synonym addr = nat

record state =
  store :: "addr \<Rightarrow> hyper"
  features :: tensor
  labels :: tensor
  options :: addr
  costHistory :: "real list"
  weights :: tensor
  mean :: "real list option"
  variance :: "real list option"

definition defaults :: hyper where
  "defaults = \<lparr>learningRate = Some (1/10), iterations = Some 1000, batchSize = Some 1,
               decisionBoundary = Some (1/2)\<rparr>"

section \<open>Preprocessing\<close>

definition applyMoments :: "real list \<Rightarrow> real list \<Rightarrow> tensor \<Rightarrow> error + tensor" where
  \<comment> \<open>\<^verbatim>\<open>features.sub(mean).div(variance.pow(0.5))\<close>\<close>
  "applyMoments m v fs =
     (case zipRow (\<lambda>x y. x - y) fs m of Inl e \<Rightarrow> Inl e
      | Inr centred \<Rightarrow>
          if list_all (\<lambda>x. 0 < x) v then zipRow (\<lambda>x y. x / y) centred (map sqrt v)
          else if list_all (\<lambda>row. length row = length v) centred then Inl NonFinite
          else Inl ShapeMismatch)"

definition standardize :: "tensor \<Rightarrow> state \<Rightarrow> error + tensor \<times> state" where
  "standardize fs s =
     (let m = momentsMean fs; v = momentsVariance fs;
          s' = s\<lparr>mean := Some m, variance := Some v\<rparr>
      in case applyMoments m v fs of Inl e \<Rightarrow> Inl e | Inr t \<Rightarrow> Inr (t, s'))"

definition preprocessFeatures :: "real list list \<Rightarrow> state \<Rightarrow> error + tensor \<times> state" where
  "preprocessFeatures raw s =
     (case tensor2d raw of Inl e \<Rightarrow> Inl e
      | Inr fs \<Rightarrow>
          (case (case (mean s, variance s) of
                   (Some m, Some v) \<Rightarrow>
                     (case applyMoments m v fs of Inl e \<Rightarrow> Inl e | Inr t \<Rightarrow> Inr (t, s))
                 | _ \<Rightarrow> standardize fs s)
           of Inl e \<Rightarrow> Inl e
            | Inr (t, s') \<Rightarrow> Inr (map (\<lambda>row. 1 # row) t, s')))"

section \<open>Construction\<close>

definition constructor ::
  "(addr \<Rightarrow> hyper) \<Rightarrow> addr \<Rightarrow> real list list \<Rightarrow> real list list \<Rightarrow> addr option \<Rightarrow> error + state" where
  \<comment> \<open>\<open>st\<close> is the caller's store and \<open>fresh\<close> an address the caller holds no reference
      to: the default options object, built when the argument is omitted, goes there.\<close>
  "constructor st fresh fs ls optArg =
     (let (st', opts) = (case optArg of None \<Rightarrow> (st(fresh := defaults), fresh)
                                      | Some a \<Rightarrow> (st, a));
          this = \<lparr>store = st', features = [], labels = [], options = opts, costHistory = [],
                  weights = [], mean = None, variance = None\<rparr>
      in case preprocessFeatures fs this of Inl e \<Rightarrow> Inl e
         | Inr (f, this1) \<Rightarrow>
             (case tensor2d ls of Inl e \<Rightarrow> Inl e
              | Inr l \<Rightarrow>
                  Inr (this1\<lparr>features := f, labels := l, options := opts, costHistory := [],
                             weights := zeros (colsT f) 1\<rparr>)))"

section \<open>Gradient descent, cost and learning rate\<close>

definition gradientDescent :: "tensor \<Rightarrow> tensor \<Rightarrow> state \<Rightarrow> error + state" where
  "gradientDescent fs ls s =
     (case matMul fs (weights s) of Inl e \<Rightarrow> Inl e
      | Inr z \<Rightarrow>
     (case subT (mapT sigmoid z) ls of Inl e \<Rightarrow> Inl e
      | Inr differences \<Rightarrow>
     (case matMul (transposeT fs) differences of Inl e \<Rightarrow> Inl e
      | Inr g \<Rightarrow>
          if rowsT fs = 0 then Inl NonFinite
          else
            (let gradients = mapT (\<lambda>x. x / real (rowsT fs)) g
             in case learningRate (store s (options s)) of None \<Rightarrow> Inl MissingOption
                | Some lr \<Rightarrow>
                    (case subT (weights s) (mapT (\<lambda>x. x * lr) gradients) of Inl e \<Rightarrow> Inl e
                     | Inr w \<Rightarrow> Inr (s\<lparr>weights := w\<rparr>))))))"

definition recordCost :: "state \<Rightarrow> error + state" where
  "recordCost s =
     (case matMul (features s) (weights s) of Inl e \<Rightarrow> Inl e
      | Inr z \<Rightarrow>
     (let predictions = mapT sigmoid z
      in case matMul (transposeT (labels s)) (mapT ln predictions) of Inl e \<Rightarrow> Inl e
         | Inr termOne \<Rightarrow>
        (case matMul (transposeT (mapT (\<lambda>x. x + 1) (mapT (\<lambda>x. x * (-1)) (labels s))))
                     (mapT ln (mapT (\<lambda>x. x + 1) (mapT (\<lambda>x. x * (-1)) predictions)))
         of Inl e \<Rightarrow> Inl e
          | Inr termTwo \<Rightarrow>
        (case addT termOne termTwo of Inl e \<Rightarrow> Inl e
         | Inr summed \<Rightarrow>
             if rowsT (features s) = 0 then Inl NonFinite
             else
               (case mapT (\<lambda>x. x * (-1)) (mapT (\<lambda>x. x / real (rowsT (features s))) summed) of
                  (cost # _) # _ \<Rightarrow> Inr (s\<lparr>costHistory := cost # costHistory s\<rparr>)
                | _ \<Rightarrow> Inl ShapeMismatch)))))"

definition optimizeLearningRate :: "state \<Rightarrow> error + state" where
  "optimizeLearningRate s =
     (if length (costHistory s) < 2 then Inr s
      else
        (case learningRate (store s (options s)) of None \<Rightarrow> Inl NonFinite
         | Some lr \<Rightarrow>
             if costHistory s ! 0 > costHistory s ! 1
             then Inr (s\<lparr>store := (store s)(options s :=
                          (store s (options s))\<lparr>learningRate := Some (lr / 2)\<rparr>)\<rparr>)
             else Inr (s\<lparr>store := (store s)(options s :=
                          (store s (options s))\<lparr>learningRate := Some (lr * (105/100))\<rparr>)\<rparr>)))"

section \<open>Training\<close>

datatype count = Count int | Unbounded | NotANumber

definition batchQuantity :: "nat \<Rightarrow> int option \<Rightarrow> count" where
  \<comment> \<open>\<^verbatim>\<open>Math.floor(rows / batchSize)\<close>: NaN for an absent batch size and for 0/0,
      Infinity for a division of a positive row count by zero.\<close>
  "batchQuantity n b =
     (case b of None \<Rightarrow> NotANumber
      | Some k \<Rightarrow> if k = 0 then (if n = 0 then NotANumber else Unbounded)
                  else Count (int n div k))"

definition batchStep :: "nat \<Rightarrow> state \<Rightarrow> error + state" where
  \<comment> \<open>the body of the loop over the batches\<close>
  "batchStep j s =
     (case batchSize (store s (options s)) of None \<Rightarrow> Inl MissingOption
      | Some b \<Rightarrow>
          (let startIndex = int j * b
           in case sliceRows startIndex b (features s) of Inl e \<Rightarrow> Inl e
              | Inr featureSlice \<Rightarrow>
                  (case sliceRows startIndex b (labels s) of Inl e \<Rightarrow> Inl e
                   | Inr labelSlice \<Rightarrow> gradientDescent featureSlice labelSlice s)))"

function batchLoop :: "nat \<Rightarrow> int \<Rightarrow> state \<Rightarrow> error + state" where
  "batchLoop j q s =
     (if int j < q
      then (case batchStep j s of Inl e \<Rightarrow> Inl e | Inr s' \<Rightarrow> batchLoop (j + 1) q s')
      else Inr s)"
  by pat_completeness auto
termination
  by (relation "measure (\<lambda>(j, q, s). nat (q - int j))") auto

declare batchLoop.simps [simp del]

definition batches :: "count \<Rightarrow> state \<Rightarrow> error + state" where
  \<comment> \<open>\<^verbatim>\<open>for (let j = 0; j < batchQuantity; j++)\<close>: no turn when the bound is NaN,
      no end when it is Infinity.\<close>
  "batches q s = (case q of Count k \<Rightarrow> batchLoop 0 k s
                  | Unbounded \<Rightarrow> Inl NonTermination
                  | NotANumber \<Rightarrow> Inr s)"

definition epoch :: "count \<Rightarrow> state \<Rightarrow> error + state" where
  \<comment> \<open>the body of the loop over the iterations\<close>
  "epoch q s =
     (case batches q s of Inl e \<Rightarrow> Inl e
      | Inr s1 \<Rightarrow> (case recordCost s1 of Inl e \<Rightarrow> Inl e | Inr s2 \<Rightarrow> optimizeLearningRate s2))"


function epochLoop :: "nat \<Rightarrow> count \<Rightarrow> state \<Rightarrow> error + state" where
  "epochLoop i q s =
     (case iterations (store s (options s)) of None \<Rightarrow> Inr s
      | Some n \<Rightarrow>
          if int i < n
          then (case epoch q s of Inl e \<Rightarrow> Inl e | Inr s' \<Rightarrow> epochLoop (i + 1) q s')
          else Inr s)"
  by pat_completeness auto
termination
proof (relation "measure (\<lambda>(i, q, s). nat ((case iterations (store s (options s)) of
                                               None \<Rightarrow> 0 | Some n \<Rightarrow> n) - int i))", goal_cases)
  case 1
  show ?case by simp
next
  case (2 i q s n s')
  have gd: "store t' = store t \<and> options t' = options t"
    if "gradientDescent fs ls t = Inr t'" for fs ls t t'
    using that by (auto simp: gradientDescent_def Let_def split: sum.splits if_splits option.splits)
  have bs: "store t' = store t \<and> options t' = options t"
    if "batchStep j t = Inr t'" for j t t'
    using that gd by (auto simp: batchStep_def Let_def split: sum.splits option.splits)
  have bl: "batchLoop j k t = Inr t' \<Longrightarrow> store t' = store t \<and> options t' = options t"
    for j k t t'
  proof (induction j k t rule: batchLoop.induct)
    case (1 j k t)
    show ?case
    proof (cases "int j < k")
      case True
      with "1.prems" obtain u where u: "batchStep j t = Inr u" "batchLoop (j + 1) k u = Inr t'"
        by (subst (asm) batchLoop.simps) (auto split: sum.splits)
      from "1.IH"[OF True u(1) u(2)] bs[OF u(1)] show ?thesis by simp
    next
      case False
      with "1.prems" show ?thesis by (subst (asm) batchLoop.simps) simp
    qed
  qed
  have ba: "store t' = store t \<and> options t' = options t"
    if "batches k t = Inr t'" for k t t'
    using that bl by (auto simp: batches_def split: count.splits)
  have rc: "store t' = store t \<and> options t' = options t"
    if "recordCost t = Inr t'" for t t'
    using that by (auto simp: recordCost_def Let_def split: sum.splits if_splits list.splits)
  have ol: "iterations (store t' (options t')) = iterations (store t (options t))"
    if "optimizeLearningRate t = Inr t'" for t t'
    using that by (auto simp: optimizeLearningRate_def split: if_splits option.splits)
  from 2(3) obtain s1 s2 where e: "batches q s = Inr s1" "recordCost s1 = Inr s2"
      "optimizeLearningRate s2 = Inr s'"
    by (auto simp: epoch_def split: sum.splits)
  have "iterations (store s' (options s')) = Some n"
    using ol[OF e(3)] rc[OF e(2)] ba[OF e(1)] 2(1) by simp
  with 2(1,2) show ?case by simp
qed

declare epochLoop.simps [simp del]

definition train :: "state \<Rightarrow> error + state" where
  "train s = epochLoop 0 (batchQuantity (rowsT (features s)) (batchSize (store s (options s)))) s"

section \<open>Prediction and testing\<close>

definition predict :: "real list list \<Rightarrow> state \<Rightarrow> error + tensor \<times> state" where
  "predict observations s =
     (case preprocessFeatures observations s of Inl e \<Rightarrow> Inl e
      | Inr (processedObservations, s') \<Rightarrow>
          (case matMul processedObservations (weights s') of Inl e \<Rightarrow> Inl e
           | Inr z \<Rightarrow>
               (case decisionBoundary (store s' (options s')) of None \<Rightarrow> Inl MissingOption
                | Some d \<Rightarrow>
                    Inr (mapT (\<lambda>p. if p > d then 1 else 0) (mapT sigmoid z), s'))))"

definition test :: "real list list \<Rightarrow> real list list \<Rightarrow> state \<Rightarrow> error + real \<times> state" where
  "test testFeatures testLabels s =
     (case tensor2d testLabels of Inl e \<Rightarrow> Inl e
      | Inr testLabelsT \<Rightarrow>
          (case predict testFeatures s of Inl e \<Rightarrow> Inl e
           | Inr (predictions, s') \<Rightarrow>
               (case subT predictions testLabelsT of Inl e \<Rightarrow> Inl e
                | Inr d \<Rightarrow>
                    (let incorrectPredictions = sumAll (mapT abs d)
                     in if rowsT predictions = 0 then Inl NonFinite
                        else Inr ((real (rowsT predictions) - incorrectPredictions)
                                    / real (rowsT predictions), s')))))"

section \<open>Notation for the statements and concrete instances\<close>

text \<open>
  \<open>tab r c f\<close> is the tensor of shape [r, c] whose entry in row \<open>i\<close> and column \<open>j\<close> is
  \<open>f i j\<close>.  \<open>processedRow m v row\<close> is what the specification asks of preprocessing: every
  value of the row less the mean of its column, over the square root of the column's
  variance, behind a leading 1.
\<close>

definition tab :: "nat \<Rightarrow> nat \<Rightarrow> (nat \<Rightarrow> nat \<Rightarrow> real) \<Rightarrow> tensor" where
  "tab r c f = map (\<lambda>i. map (\<lambda>j. f i j) [0..<c]) [0..<r]"

definition processedRow :: "real list \<Rightarrow> real list \<Rightarrow> real list \<Rightarrow> real list" where
  "processedRow m v row = 1 # map (\<lambda>j. (row ! j - m ! j) / sqrt (v ! j)) [0..<length row]"

definition adaptState :: state where
  "adaptState = \<lparr>store = (\<lambda>_. defaults), features = [[1, 0]], labels = [[1]], options = 0,
                  costHistory = [3, 2], weights = [[0], [0]], mean = Some [0],
                  variance = Some [1]\<rparr>"

definition gdState :: state where
  "gdState = \<lparr>store = (\<lambda>_. defaults\<lparr>learningRate := Some 1\<rparr>), features = [[1, -1], [1, 1]],
               labels = [[0], [1]], options = 0, costHistory = [], weights = [[0], [0]],
               mean = Some [1], variance = Some [1]\<rparr>"

text \<open>
  The calls a client makes on an instance after its construction, one after the other;
  a call that does not return ends the sequence.
\<close>

datatype call = Train | Predict "real list list" | Test "real list list" "real list list"

fun perform :: "call \<Rightarrow> state \<Rightarrow> error + state" where
  "perform Train s = train s"
| "perform (Predict observations) s =
     (case predict observations s of Inl e \<Rightarrow> Inl e | Inr (_, s') \<Rightarrow> Inr s')"
| "perform (Test testFeatures testLabels) s =
     (case test testFeatures testLabels s of Inl e \<Rightarrow> Inl e | Inr (_, s') \<Rightarrow> Inr s')"

fun performAll :: "call list \<Rightarrow> state \<Rightarrow> error + state" where
  "performAll [] s = Inr s"
| "performAll (c # cs) s = (case perform c s of Inl e \<Rightarrow> Inl e | Inr s' \<Rightarrow> performAll cs s')"

definition untrained :: state where
  "untrained = \<lparr>store = (\<lambda>_. defaults), features = [[1, -1], [1, 1]], labels = [[0], [1]],
                 options = 0, costHistory = [], weights = [[0], [0]], mean = Some [1],
                 variance = Some [1]\<rparr>"

definition partialOptions :: hyper where
  \<comment> \<open>\<^verbatim>\<open>{ learningRate: 0.5, batchSize: 1, decisionBoundary: 0.5 }\<close>\<close>
  "partialOptions = \<lparr>learningRate = Some (1/2), iterations = None, batchSize = Some 1,
                     decisionBoundary = Some (1/2)\<rparr>"

text \<open>
  \<open>wellShaped n c s\<close>: the instance holds \<open>n\<close> training rows of \<open>c\<close> columns (the column of
  ones included), one label and one weight for each.  \<open>evolves s s'\<close>: from \<open>s\<close> to \<open>s'\<close> the
  training data, the moments and the reference to the options object are the same, and
  the store is the same but for the learning rate of that object.
\<close>

definition wellShaped :: "nat \<Rightarrow> nat \<Rightarrow> state \<Rightarrow> bool" where
  "wellShaped n c s \<longleftrightarrow>
     0 < n \<and> 0 < c \<and> hasShape n c (features s) \<and> hasShape n 1 (labels s) \<and>
     hasShape c 1 (weights s)"

definition evolves :: "state \<Rightarrow> state \<Rightarrow> bool" where
  "evolves s s' \<longleftrightarrow>
     features s' = features s \<and> labels s' = labels s \<and> options s' = options s \<and>
     mean s' = mean s \<and> variance s' = variance s \<and>
     (\<forall>a. a \<noteq> options s \<longrightarrow> store s' a = store s a) \<and>
     iterations (store s' (options s)) = iterations (store s (options s)) \<and>
     batchSize (store s' (options s)) = batchSize (store s (options s)) \<and>
     decisionBoundary (store s' (options s)) = decisionBoundary (store s (options s))"

text \<open>
  A full hyperparameters record, as the specification's data model has it: every field
  present, the number of iterations an integer that is not negative, the batch size an
  integer that is at least one.
\<close>

definition fullOptions :: "hyper \<Rightarrow> bool" where
  "fullOptions h \<longleftrightarrow>
     learningRate h \<noteq> None \<and> decisionBoundary h \<noteq> None \<and>
     (case iterations h of None \<Rightarrow> False | Some n \<Rightarrow> 0 \<le> n) \<and>
     (case batchSize h of None \<Rightarrow> False | Some b \<Rightarrow> 1 \<le> b)"

definition twoEpochs :: hyper where
  \<comment> \<open>\<^verbatim>\<open>{ learningRate: 1, iterations: 2, batchSize: 2, decisionBoundary: 0.5 }\<close>\<close>
  "twoEpochs = \<lparr>learningRate = Some 1, iterations = Some 2, batchSize = Some 2,
                decisionBoundary = Some (1/2)\<rparr>"

text \<open>
  The running example: two training rows with one feature, \<^verbatim>\<open>[[0], [2]]\<close>, labelled
  \<^verbatim>\<open>[[0], [1]]\<close>, and the caller's store \<open>callerStore\<close>, which holds the options object
  \<open>twoEpochs\<close> at address 0.  The moments are 1 and 1, the processed rows \<^verbatim>\<open>[1, -1]\<close>
  and \<^verbatim>\<open>[1, 1]\<close>.  \<open>exampleAt t h lr\<close> is the instance with the weights
  \<^verbatim>\<open>[[0], [t]]\<close>, the cost history \<open>h\<close> and the learning rate \<open>lr\<close> in the options
  object.
\<close>

definition callerStore :: "addr \<Rightarrow> hyper" where
  "callerStore = (\<lambda>_. twoEpochs)"

definition exampleAt :: "real \<Rightarrow> real list \<Rightarrow> real \<Rightarrow> state" where
  "exampleAt t h lr =
     \<lparr>store = callerStore(0 := twoEpochs\<lparr>learningRate := Some lr\<rparr>),
      features = [[1, -1], [1, 1]], labels = [[0], [1]], options = 0, costHistory = h,
      weights = [[0], [t]], mean = Some [1], variance = Some [1]\<rparr>"

text \<open>
  The chronological record the specification asks for.  \<open>crossEntropy s\<close> is the
  cross-entropy of the instance's weights over all its training rows, by the
  specification's formula; \<open>epochStates k q s\<close> lists the instance as it stands at the end
  of epoch 0, of epoch 1, and so on up to epoch \<open>k - 1\<close>, with \<open>q\<close> batches in every epoch.
\<close>

definition crossEntropy :: "state \<Rightarrow> real" where
  "crossEntropy s =
     - (1 / real (length (features s))) *
       ((\<Sum>i<length (features s). labels s ! i ! 0 *
           ln (sigmoid (\<Sum>l<length (weights s). features s ! i ! l * weights s ! l ! 0))) +
        (\<Sum>i<length (features s). (1 - labels s ! i ! 0) *
           ln (1 - sigmoid (\<Sum>l<length (weights s). features s ! i ! l * weights s ! l ! 0))))"

fun epochStates :: "nat \<Rightarrow> count \<Rightarrow> state \<Rightarrow> state list" where
  "epochStates 0 q s = []"
| "epochStates (Suc k) q s =
     (case epoch q s of Inl e \<Rightarrow> [] | Inr s' \<Rightarrow> s' # epochStates k q s')"

text \<open>
  Training as the specification describes it.  \<open>batchesOf b F Y\<close> lists the row slices
  \<open>[j * b, (j + 1) * b)\<close> of the features and of the labels for \<open>j\<close> from 0 up to, and not
  including, \<open>length F div b\<close>; \<open>stepsOn\<close> makes one gradient step on every batch of a list,
  in the order of the list; \<open>epochsOn k\<close> does so \<open>k\<close> times, and after the steps of an epoch
  records the cost and adapts the learning rate.
\<close>

definition batchesOf :: "nat \<Rightarrow> tensor \<Rightarrow> tensor \<Rightarrow> (tensor \<times> tensor) list" where
  "batchesOf b F Y = map (\<lambda>j. (take b (drop (j * b) F), take b (drop (j * b) Y))) [0..<length F div b]"

fun stepsOn :: "(tensor \<times> tensor) list \<Rightarrow> state \<Rightarrow> error + state" where
  "stepsOn [] s = Inr s"
| "stepsOn ((X, y) # bs) s =
     (case gradientDescent X y s of Inl e \<Rightarrow> Inl e | Inr s' \<Rightarrow> stepsOn bs s')"

fun epochsOn :: "nat \<Rightarrow> (tensor \<times> tensor) list \<Rightarrow> state \<Rightarrow> error + state" where
  "epochsOn 0 bs s = Inr s"
| "epochsOn (Suc k) bs s =
     (case stepsOn bs s of Inl e \<Rightarrow> Inl e
      | Inr s1 \<Rightarrow>
          (case recordCost s1 of Inl e \<Rightarrow> Inl e
           | Inr s2 \<Rightarrow>
               (case optimizeLearningRate s2 of Inl e \<Rightarrow> Inl e
                | Inr s3 \<Rightarrow> epochsOn k bs s3)))"

definition fourRows :: state where
  \<comment> \<open>the instance for the features \<^verbatim>\<open>[[0], [2], [0], [2]]\<close>, the labels
      \<^verbatim>\<open>[[0], [1], [0], [1]]\<close> and the options
      \<^verbatim>\<open>{ learningRate: 1, iterations: 2, batchSize: 3, decisionBoundary: 0.5 }\<close>\<close>
  "fourRows =
     \<lparr>store = (\<lambda>_. twoEpochs\<lparr>batchSize := Some 3\<rparr>),
      features = [[1, -1], [1, 1], [1, -1], [1, 1]], labels = [[0], [1], [0], [1]],
      options = 0, costHistory = [], weights = [[0], [0]], mean = Some [1],
      variance = Some [1]\<rparr>"


text \<open>
  A second example, with a training row that is in no batch: three training rows without
  a feature, so the processed rows are the column of ones alone, with the labels 1, 1 and
  \<open>y\<close>, and the options \<^verbatim>\<open>{ learningRate: 4, iterations: 3, batchSize: 2,
  decisionBoundary: 0.5 }\<close> at address 0.  The one batch of an epoch is the rows 0 and 1.
  \<open>tailAt y w h lr\<close> is the instance with the weight \<open>w\<close>, the cost history \<open>h\<close> and the
  learning rate \<open>lr\<close>; \<open>tailCost y w\<close> is its cross-entropy; \<open>trainedWeights s\<close> are the
  weights \<open>train\<close> leaves.
\<close>

definition tailOptions :: hyper where
  "tailOptions = \<lparr>learningRate = Some 4, iterations = Some 3, batchSize = Some 2,
                  decisionBoundary = Some (1/2)\<rparr>"

definition tailStore :: "addr \<Rightarrow> hyper" where
  "tailStore = (\<lambda>_. tailOptions)"

definition tailAt :: "real \<Rightarrow> real \<Rightarrow> real list \<Rightarrow> real \<Rightarrow> state" where
  "tailAt y w h lr =
     \<lparr>store = tailStore(0 := tailOptions\<lparr>learningRate := Some lr\<rparr>),
      features = [[1], [1], [1]], labels = [[1], [1], [y]], options = 0, costHistory = h,
      weights = [[w]], mean = Some [], variance = Some []\<rparr>"

definition tailCost :: "real \<Rightarrow> real \<Rightarrow> real" where
  "tailCost y w = - (1 / 3) * ((2 + y) * ln (sigmoid w) + (1 - y) * ln (1 - sigmoid w))"

definition trainedWeights :: "state \<Rightarrow> tensor option" where
  "trainedWeights s = (case train s of Inl e \<Rightarrow> None | Inr s' \<Rightarrow> Some (weights s'))"

section \<open>Facts about the tensor operations\<close>

lemma length_tab [simp]: "length (tab r c f) = r"
  by (simp add: tab_def)

lemma nth_tab [simp]: "i < r \<Longrightarrow> tab r c f ! i = map (f i) [0..<c]"
  by (simp add: tab_def)

lemma hasShape_tab [simp]: "hasShape r c (tab r c f)"
  by (simp add: hasShape_def tab_def list_all_iff)

lemma tab_of_hasShape: "hasShape r c A \<Longrightarrow> A = tab r c (\<lambda>i j. A ! i ! j)"
  by (auto simp: hasShape_def list_all_length tab_def intro!: nth_equalityI)

lemma colsT_tab [simp]: "0 < r \<Longrightarrow> colsT (tab r c f) = c"
  by (cases r) (simp_all add: tab_def colsT_def upt_conv_Cons del: upt_Suc)

lemma rowsT_tab [simp]: "rowsT (tab r c f) = r"
  by (simp add: rowsT_def)

lemma column_tab [simp]: "j < c \<Longrightarrow> column j (tab r c f) = map (\<lambda>i. f i j) [0..<r]"
  by (simp add: column_def tab_def)

lemma dot_upt: "dot (map f [0..<n]) (map g [0..<n]) = (\<Sum>l<n. f l * g l)"
proof -
  have "map2 (*) (map f [0..<n]) (map g [0..<n]) = map (\<lambda>l. f l * g l) [0..<n]"
    by (rule nth_equalityI) simp_all
  then show ?thesis
    by (simp add: dot_def interv_sum_list_conv_sum_set_nat atLeast0LessThan)
qed

lemma mapT_tab [simp]: "mapT g (tab r c f) = tab r c (\<lambda>i j. g (f i j))"
  by (simp add: mapT_def tab_def)

lemma zipT_tab [simp]: "zipT g (tab r c f) (tab r c f') = Inr (tab r c (\<lambda>i j. g (f i j) (f' i j)))"
proof -
  have "map2 (map2 g) (tab r c f) (tab r c f') = tab r c (\<lambda>i j. g (f i j) (f' i j))"
    by (rule nth_equalityI) (auto intro!: nth_equalityI)
  then show ?thesis by (simp add: zipT_def tab_def comp_def)
qed

lemma transposeT_tab [simp]: "0 < r \<Longrightarrow> transposeT (tab r c f) = tab c r (\<lambda>j i. f i j)"
  by (simp add: transposeT_def tab_def[of c])

lemma matMul_tab [simp]:
  assumes "0 < r" "0 < m"
  shows "matMul (tab r m f) (tab m c g) = Inr (tab r c (\<lambda>i j. \<Sum>l<m. f i l * g l j))"
proof -
  have "map (\<lambda>row. map (\<lambda>j. dot row (column j (tab m c g))) [0..<c]) (tab r m f)
        = tab r c (\<lambda>i j. \<Sum>l<m. f i l * g l j)"
    by (rule nth_equalityI) (auto intro!: nth_equalityI simp: dot_upt)
  with assms show ?thesis by (simp add: matMul_def)
qed

lemma tab_one: "tab r (Suc 0) f = map (\<lambda>i. [f i 0]) [0..<r]"
  by (simp add: tab_def)

lemma gradientDescent_tab:
  assumes "0 < b" "0 < c" "learningRate (store s (options s)) = Some lr" "weights s = tab c k w"
  shows "gradientDescent (tab b c X) (tab b k y) s =
           Inr (s\<lparr>weights := tab c k (\<lambda>m j. w m j -
                  (\<Sum>i<b. X i m * (sigmoid (\<Sum>l<c. X i l * w l j) - y i j)) / real b * lr)\<rparr>)"
  using assms by (simp add: gradientDescent_def subT_def)

lemma gradientDescent_hasShape:
  assumes "hasShape n c X" "hasShape n 1 y" "hasShape c 1 (weights s)" "0 < n" "0 < c"
    and "learningRate (store s (options s)) = Some lr"
  shows "gradientDescent X y s =
           Inr (s\<lparr>weights := tab c 1 (\<lambda>m j. weights s ! m ! j -
                  (\<Sum>i<n. X ! i ! m * (sigmoid (\<Sum>l<c. X ! i ! l * weights s ! l ! j) - y ! i ! j))
                     / real n * lr)\<rparr>)"
proof -
  have "gradientDescent X y s = gradientDescent (tab n c (\<lambda>i j. X ! i ! j)) (tab n 1 (\<lambda>i j. y ! i ! j)) s"
    using tab_of_hasShape[OF assms(1)] tab_of_hasShape[OF assms(2)] by simp
  also have "\<dots> = Inr (s\<lparr>weights := tab c 1 (\<lambda>m j. weights s ! m ! j -
                  (\<Sum>i<n. X ! i ! m * (sigmoid (\<Sum>l<c. X ! i ! l * weights s ! l ! j) - y ! i ! j))
                     / real n * lr)\<rparr>)"
    by (rule gradientDescent_tab[OF assms(4,5,6) tab_of_hasShape[OF assms(3)]])
  finally show ?thesis .
qed

lemma sigmoid_zero [simp]: "sigmoid 0 = 1 / 2"
  by (simp add: sigmoid_def)

lemma tab_one_one: "tab (Suc 0) (Suc 0) f = [[f 0 0]]"
  by (simp add: tab_def)

lemma recordCost_tab:
  assumes "0 < n" "0 < c" "features s = tab n c F" "labels s = tab n 1 y" "weights s = tab c 1 w"
  shows "recordCost s =
           Inr (s\<lparr>costHistory :=
                  - (1 / real n) *
                    ((\<Sum>i<n. y i 0 * ln (sigmoid (\<Sum>l<c. F i l * w l 0))) +
                     (\<Sum>i<n. (1 - y i 0) * ln (1 - sigmoid (\<Sum>l<c. F i l * w l 0))))
                  # costHistory s\<rparr>)"
  using assms by (simp add: recordCost_def addT_def) (simp add: tab_one_one)

lemma zipRow_Inr:
  "list_all (\<lambda>row. length row = length v) A \<Longrightarrow>
   zipRow f A v = Inr (map (\<lambda>row. map (\<lambda>j. f (row ! j) (v ! j)) [0..<length row]) A)"
  by (auto simp: zipRow_def list_all_iff intro!: nth_equalityI)

lemma zipRow_Inr_iff:
  "zipRow f A v = Inr B \<longleftrightarrow>
     list_all (\<lambda>row. length row = length v) A \<and>
     B = map (\<lambda>row. map (\<lambda>j. f (row ! j) (v ! j)) [0..<length row]) A"
  using zipRow_Inr[of v A f] by (auto simp: zipRow_def)

lemma applyMoments_Inr:
  assumes "list_all (\<lambda>row. length row = length m) fs" "list_all (\<lambda>x. 0 < x) v"
    "length v = length m"
  shows "applyMoments m v fs = Inr (map (\<lambda>row. tl (processedRow m v row)) fs)"
proof -
  have "zipRow (\<lambda>x y. x - y) fs m = Inr (map (\<lambda>row. map (\<lambda>j. row ! j - m ! j) [0..<length row]) fs)"
    using assms(1) by (rule zipRow_Inr)
  moreover have "zipRow (\<lambda>x y. x / y) (map (\<lambda>row. map (\<lambda>j. row ! j - m ! j) [0..<length row]) fs)
      (map sqrt v) = Inr (map (\<lambda>row. tl (processedRow m v row)) fs)"
    using assms by (subst zipRow_Inr) (auto simp: list_all_iff processedRow_def)
  ultimately show ?thesis using assms(2) by (simp add: applyMoments_def)
qed

lemma applyMoments_InrD:
  assumes "applyMoments m v fs = Inr t"
  shows "t = map (\<lambda>row. tl (processedRow m v row)) fs"
    and "list_all (\<lambda>row. length row = length m) fs" and "list_all (\<lambda>x. 0 < x) v"
    and "fs \<noteq> [] \<Longrightarrow> length v = length m"
proof -
  from assms obtain ce where ce: "zipRow (\<lambda>x y. x - y) fs m = Inr ce"
    by (auto simp: applyMoments_def split: sum.splits)
  then have fs: "list_all (\<lambda>row. length row = length m) fs"
    and ce': "ce = map (\<lambda>row. map (\<lambda>j. row ! j - m ! j) [0..<length row]) fs"
    by (simp_all add: zipRow_Inr_iff)
  from assms ce have v: "list_all (\<lambda>x. 0 < x) v"
    by (auto simp: applyMoments_def split: if_splits)
  with assms ce have t: "zipRow (\<lambda>x y. x / y) ce (map sqrt v) = Inr t"
    by (simp add: applyMoments_def)
  then have len: "list_all (\<lambda>row. length row = length v) ce"
    by (simp add: zipRow_Inr_iff)
  show "list_all (\<lambda>row. length row = length m) fs" by (rule fs)
  show "list_all (\<lambda>x. 0 < x) v" by (rule v)
  show lv: "length v = length m" if "fs \<noteq> []"
    using that len fs unfolding ce' by (cases fs) (auto simp: list_all_iff)
  show "t = map (\<lambda>row. tl (processedRow m v row)) fs"
  proof (cases "fs = []")
    case True
    with t ce' show ?thesis by (simp add: zipRow_def)
  next
    case False
    from applyMoments_Inr[OF fs v lv[OF False]] assms show ?thesis by simp
  qed
qed

lemma processedRow_Cons: "1 # tl (processedRow m v row) = processedRow m v row"
  by (simp add: processedRow_def)

lemma length_processedRow [simp]: "length (processedRow m v row) = length row + 1"
  by (simp add: processedRow_def)

lemma tensor2d_Inr_iff:
  "tensor2d a = Inr t \<longleftrightarrow> t = a \<and> a \<noteq> [] \<and> list_all (\<lambda>row. length row = colsT a) a"
  by (auto simp: tensor2d_def)

lemma list_all_colsT:
  "a \<noteq> [] \<Longrightarrow> list_all (\<lambda>row. length row = k) a \<Longrightarrow> colsT a = k"
  by (cases a) (simp_all add: colsT_def)

lemma preprocessFeatures_stored:
  assumes "mean s = Some m" "variance s = Some v" "raw \<noteq> []"
    "list_all (\<lambda>row. length row = length m) raw" "length v = length m" "list_all (\<lambda>x. 0 < x) v"
  shows "preprocessFeatures raw s = Inr (map (processedRow m v) raw, s)"
proof -
  have "tensor2d raw = Inr raw"
    using assms(3,4) list_all_colsT[OF assms(3,4)] by (simp add: tensor2d_def)
  then show ?thesis
    using assms(1,2) applyMoments_Inr[OF assms(4,6,5)]
    by (simp add: preprocessFeatures_def processedRow_Cons)
qed

lemma preprocessFeatures_storedD:
  assumes "mean s = Some m" "variance s = Some v" "preprocessFeatures raw s = Inr (P, s')"
  shows "s' = s" and "P = map (processedRow m v) raw" and "raw \<noteq> []"
    and "list_all (\<lambda>row. length row = length m) raw" and "length v = length m"
    and "list_all (\<lambda>x. 0 < x) v"
proof -
  from assms(3) have raw: "tensor2d raw = Inr raw"
    by (auto simp: preprocessFeatures_def tensor2d_def split: sum.splits if_splits)
  then show ne: "raw \<noteq> []" by (simp add: tensor2d_Inr_iff)
  from assms raw obtain t where t: "applyMoments m v raw = Inr t" and P: "P = map (\<lambda>row. 1 # row) t"
    and s': "s' = s"
    by (auto simp: preprocessFeatures_def split: sum.splits)
  show "s' = s" by (rule s')
  from applyMoments_InrD[OF t] ne
  show "list_all (\<lambda>row. length row = length m) raw" "length v = length m"
    "list_all (\<lambda>x. 0 < x) v" by simp_all
  from applyMoments_InrD(1)[OF t] P show "P = map (processedRow m v) raw"
    by (simp add: processedRow_Cons)
qed

lemma matMul_column:
  assumes "A \<noteq> []" "colsT A = length W" "hasShape (length W) 1 W" "W \<noteq> []"
  shows "matMul A W = Inr (map (\<lambda>row. [dot row (column 0 W)]) A)"
proof -
  have "colsT W = 1"
    using assms(3,4) by (cases W) (simp_all add: hasShape_def colsT_def)
  with assms(2) show ?thesis by (simp add: matMul_def rowsT_def)
qed

section \<open>The learning-rate controller\<close>

text \<open>
  C3.  With fewer than two recorded costs \<open>optimizeLearningRate\<close> returns the state as it
  is.  Otherwise it compares the entry at index 0 (the cost \<open>recordCost\<close> has just put
  there, the most recent one) with the entry at index 1 (the cost of the epoch before):
  the learning rate of the options object is halved when the first is strictly greater,
  and multiplied by 1.05 in every other case, equal costs included.  The result differs
  from the state before in that one field of the options object and in nothing else.
\<close>

theorem optimizeLearningRate_rule:
  assumes "learningRate (store s (options s)) = Some lr"
  shows "optimizeLearningRate s =
           Inr (if length (costHistory s) < 2 then s
                else s\<lparr>store := (store s)(options s := (store s (options s))
                        \<lparr>learningRate := Some (if costHistory s ! 0 > costHistory s ! 1
                                                then lr / 2 else lr * 1.05)\<rparr>)\<rparr>)"
  using assms by (simp add: optimizeLearningRate_def)

theorem optimizeLearningRate_rule_witness:
  "learningRate (store adaptState (options adaptState)) = Some (1/10) \<and>
   optimizeLearningRate adaptState =
     Inr (adaptState\<lparr>store := (store adaptState)(0 := defaults\<lparr>learningRate := Some (1/20)\<rparr>)\<rparr>)"
  using optimizeLearningRate_rule[of adaptState "1/10"] by (simp add: adaptState_def defaults_def)

section \<open>One gradient step\<close>

text \<open>
  C4.  For a batch \<open>X\<close> of \<open>n\<close> rows and \<open>c\<close> columns with its label column \<open>y\<close>, one call of
  \<open>gradientDescent\<close> replaces the weight column \<open>w\<close> by
  \<open>w - learningRate * (X\<^sup>T (sigmoid (X w) - y)) / n\<close>, written out entry by entry: the
  entry \<open>m\<close> of the product \<open>X\<^sup>T d\<close> is the sum over the rows \<open>i\<close> of \<open>X i m * d i\<close>, and
  the entry \<open>i\<close> of \<open>X w\<close> is the sum over the columns \<open>l\<close> of \<open>X i l * w l\<close>.  Nothing but
  the weights changes.
\<close>

theorem gradientDescent_update:
  assumes "hasShape n c X" "hasShape n 1 y" "hasShape c 1 (weights s)" "0 < n" "0 < c"
    and "learningRate (store s (options s)) = Some lr"
  shows "gradientDescent X y s =
           Inr (s\<lparr>weights := map (\<lambda>m. [weights s ! m ! 0 -
                  lr * (\<Sum>i<n. X ! i ! m * (sigmoid (\<Sum>l<c. X ! i ! l * weights s ! l ! 0) - y ! i ! 0))
                    / real n]) [0..<c]\<rparr>)"
proof -
  note X = tab_of_hasShape[OF assms(1)] and y = tab_of_hasShape[OF assms(2)]
    and w = tab_of_hasShape[OF assms(3)]
  have "gradientDescent X y s = gradientDescent (tab n c (\<lambda>i j. X ! i ! j)) (tab n 1 (\<lambda>i j. y ! i ! j)) s"
    using X y by simp
  also have "\<dots> = Inr (s\<lparr>weights := tab c 1 (\<lambda>m j. weights s ! m ! j -
                  (\<Sum>i<n. X ! i ! m * (sigmoid (\<Sum>l<c. X ! i ! l * weights s ! l ! j) - y ! i ! j))
                     / real n * lr)\<rparr>)"
    by (rule gradientDescent_tab[OF assms(4,5,6) w])
  finally show ?thesis by (simp add: tab_one mult.commute)
qed

theorem gradientDescent_update_witness:
  "hasShape 2 2 [[1, -1], [1, 1]] \<and> hasShape 2 1 [[0], [1]] \<and> hasShape 2 1 (weights gdState) \<and>
   learningRate (store gdState (options gdState)) = Some 1 \<and>
   gradientDescent [[1, -1], [1, 1]] [[0], [1]] gdState = Inr (gdState\<lparr>weights := [[0], [1/2]]\<rparr>)"
proof -
  have h: "hasShape 2 2 [[1, -1], [1, 1]]" "hasShape 2 1 [[0], [1]]" "hasShape 2 1 (weights gdState)"
    "(0::nat) < 2" "(0::nat) < 2" "learningRate (store gdState (options gdState)) = Some 1"
    by (simp_all add: hasShape_def gdState_def)
  show ?thesis
    using h gradientDescent_update[OF h]
    by (simp add: gdState_def numeral_2_eq_2 lessThan_Suc upt_conv_Cons del: upt_Suc)
qed

section \<open>The recorded cost\<close>

text \<open>
  C5.  \<open>recordCost\<close> takes the predictions \<open>p = sigmoid (F w)\<close> over all \<open>n\<close> rows of the
  stored training features \<open>F\<close> and puts the scalar
  \<open>- (1 / n) * (y\<^sup>T ln p + (1 - y)\<^sup>T ln (1 - p))\<close> into the cost history as a new entry;
  the entries that were there stay as they are, behind the new one.
\<close>

theorem recordCost_crossEntropy:
  assumes "hasShape n c (features s)" "hasShape n 1 (labels s)" "hasShape c 1 (weights s)"
    and "0 < n" "0 < c"
  shows "recordCost s =
           Inr (s\<lparr>costHistory :=
                  - (1 / real n) *
                    ((\<Sum>i<n. labels s ! i ! 0 *
                         ln (sigmoid (\<Sum>l<c. features s ! i ! l * weights s ! l ! 0))) +
                     (\<Sum>i<n. (1 - labels s ! i ! 0) *
                         ln (1 - sigmoid (\<Sum>l<c. features s ! i ! l * weights s ! l ! 0))))
                  # costHistory s\<rparr>)"
  by (rule recordCost_tab[OF assms(4,5) tab_of_hasShape[OF assms(1)] tab_of_hasShape[OF assms(2)]
        tab_of_hasShape[OF assms(3)]])

theorem recordCost_crossEntropy_witness:
  "hasShape 2 2 (features gdState) \<and> hasShape 2 1 (labels gdState) \<and> hasShape 2 1 (weights gdState) \<and>
   recordCost gdState = Inr (gdState\<lparr>costHistory := [ln 2]\<rparr>)"
proof -
  have h: "hasShape 2 2 (features gdState)" "hasShape 2 1 (labels gdState)"
    "hasShape 2 1 (weights gdState)" "(0::nat) < 2" "(0::nat) < 2"
    by (simp_all add: hasShape_def gdState_def)
  show ?thesis
    using h recordCost_crossEntropy[OF h]
    by (simp add: gdState_def numeral_2_eq_2 lessThan_Suc ln_div)
qed

section \<open>Construction and the options argument\<close>

lemma length_momentsMean [simp]: "length (momentsMean fs) = colsT fs"
  by (simp add: momentsMean_def)

lemma length_momentsVariance [simp]: "length (momentsVariance fs) = colsT fs"
  by (simp add: momentsVariance_def)

lemma constructorD:
  assumes "constructor st fresh fs ls optArg = Inr s"
  shows "fs \<noteq> []" and "list_all (\<lambda>row. length row = colsT fs) fs"
    and "list_all (\<lambda>x. 0 < x) (momentsVariance fs)"
    and "mean s = Some (momentsMean fs)" and "variance s = Some (momentsVariance fs)"
    and "features s = map (processedRow (momentsMean fs) (momentsVariance fs)) fs"
    and "labels s = ls" and "ls \<noteq> []" and "list_all (\<lambda>row. length row = colsT ls) ls"
    and "costHistory s = []" and "weights s = zeros (colsT fs + 1) 1"
    and "options s = (case optArg of None \<Rightarrow> fresh | Some a \<Rightarrow> a)"
    and "store s = (case optArg of None \<Rightarrow> st(fresh := defaults) | Some a \<Rightarrow> st)"
proof -
  define st' where "st' = (case optArg of None \<Rightarrow> st(fresh := defaults) | Some a \<Rightarrow> st)"
  define opts where "opts = (case optArg of None \<Rightarrow> fresh | Some a \<Rightarrow> a)"
  define this where "this = \<lparr>store = st', features = [], labels = [], options = opts,
      costHistory = [], weights = [], mean = None, variance = None\<rparr>"
  have split: "(case optArg of None \<Rightarrow> (st(fresh := defaults), fresh) | Some a \<Rightarrow> (st, a)) = (st', opts)"
    by (simp add: st'_def opts_def split: option.splits)
  have unf: "constructor st fresh fs ls optArg =
      (case preprocessFeatures fs this of Inl e \<Rightarrow> Inl e
       | Inr (f, this1) \<Rightarrow>
           (case tensor2d ls of Inl e \<Rightarrow> Inl e
            | Inr l \<Rightarrow>
                Inr (this1\<lparr>features := f, labels := l, options := opts, costHistory := [],
                           weights := zeros (colsT f) 1\<rparr>)))"
    unfolding constructor_def split this_def by simp
  obtain f this1 where pre: "preprocessFeatures fs this = Inr (f, this1)"
    using assms unfolding unf by (cases "preprocessFeatures fs this") auto
  obtain l where l: "tensor2d ls = Inr l"
    using assms unfolding unf pre by (cases "tensor2d ls") auto
  then have lab: "tensor2d ls = Inr ls" by (simp add: tensor2d_Inr_iff)
  have s: "s = this1\<lparr>features := f, labels := ls, options := opts, costHistory := [],
                      weights := zeros (colsT f) 1\<rparr>"
    using assms unfolding unf pre lab by simp
  from pre have raw: "tensor2d fs = Inr fs"
    by (auto simp: preprocessFeatures_def tensor2d_def split: sum.splits if_splits)
  then show ne: "fs \<noteq> []" and rect: "list_all (\<lambda>row. length row = colsT fs) fs"
    by (simp_all add: tensor2d_Inr_iff)
  from pre raw obtain t where t: "applyMoments (momentsMean fs) (momentsVariance fs) fs = Inr t"
    and f: "f = map (\<lambda>row. 1 # row) t"
    and this1: "this1 = this\<lparr>mean := Some (momentsMean fs), variance := Some (momentsVariance fs)\<rparr>"
    by (auto simp: preprocessFeatures_def standardize_def Let_def this_def split: sum.splits)
  from applyMoments_InrD[OF t] show "list_all (\<lambda>x. 0 < x) (momentsVariance fs)" by simp
  from applyMoments_InrD(1)[OF t] f
  have f': "f = map (processedRow (momentsMean fs) (momentsVariance fs)) fs"
    by (simp add: processedRow_Cons)
  have "colsT f = colsT fs + 1"
    using ne rect unfolding f' by (cases fs) (simp_all add: colsT_def)
  with s this1 f' show "mean s = Some (momentsMean fs)" "variance s = Some (momentsVariance fs)"
    "features s = map (processedRow (momentsMean fs) (momentsVariance fs)) fs"
    "labels s = ls" "costHistory s = []" "weights s = zeros (colsT fs + 1) 1"
    "options s = (case optArg of None \<Rightarrow> fresh | Some a \<Rightarrow> a)"
    "store s = (case optArg of None \<Rightarrow> st(fresh := defaults) | Some a \<Rightarrow> st)"
    by (simp_all add: this_def opts_def st'_def)
  from lab show "ls \<noteq> []" "list_all (\<lambda>row. length row = colsT ls) ls"
    by (simp_all add: tensor2d_Inr_iff)
qed

lemma train_no_iterations:
  "iterations (store s (options s)) = None \<Longrightarrow> train s = Inr s"
  by (simp add: train_def epochLoop.simps)

lemma constructor_example:
  "constructor (\<lambda>_. h) fresh [[0], [2]] [[0], [1]] (Some 0) =
     Inr \<lparr>store = (\<lambda>_. h), features = [[1, -1], [1, 1]], labels = [[0], [1]], options = 0,
          costHistory = [], weights = [[0], [0]], mean = Some [1], variance = Some [1]\<rparr>"
  by (simp add: constructor_def preprocessFeatures_def tensor2d_def colsT_def standardize_def
      Let_def applyMoments_def zipRow_def momentsMean_def momentsVariance_def column_def zeros_def
      numeral_2_eq_2)

lemma callerStore_apply [simp]: "callerStore a = twoEpochs"
  by (simp add: callerStore_def)

lemma constructor_callerStore:
  "constructor callerStore fresh [[0], [2]] [[0], [1]] (Some 0) =
     Inr \<lparr>store = callerStore, features = [[1, -1], [1, 1]], labels = [[0], [1]], options = 0,
          costHistory = [], weights = [[0], [0]], mean = Some [1], variance = Some [1]\<rparr>"
  unfolding callerStore_def by (rule constructor_example)

text \<open>
  C10.  The default options object is built only when the options argument is omitted;
  it is then a new object.  When the caller passes an object, the instance refers to that
  object and the store is the caller's: a field the caller left out stays absent.  With
  \<open>iterations\<close> absent, \<open>train\<close> returns at once with the state it was given: no epoch, the
  weights still all zero and the cost history still empty.
\<close>

theorem defaults_only_without_argument:
  assumes "constructor st fresh fs ls optArg = Inr s"
  shows "(optArg = None \<longrightarrow> options s = fresh \<and> store s = st(fresh := defaults)) \<and>
         (\<forall>a. optArg = Some a \<longrightarrow> options s = a \<and> store s = st \<and>
              (iterations (st a) = None \<longrightarrow>
                 train s = Inr s \<and> weights s = zeros (colsT fs + 1) 1 \<and> costHistory s = []))"
  using constructorD[OF assms] by (auto simp: train_no_iterations)

theorem defaults_only_without_argument_witness:
  "constructor (\<lambda>_. partialOptions) 1 [[0], [2]] [[0], [1]] (Some 0) = Inr (untrained\<lparr>store := \<lambda>_. partialOptions\<rparr>) \<and>
   iterations (store (untrained\<lparr>store := \<lambda>_. partialOptions\<rparr>) 0) = None \<and>
   train (untrained\<lparr>store := \<lambda>_. partialOptions\<rparr>) = Inr (untrained\<lparr>store := \<lambda>_. partialOptions\<rparr>) \<and>
   weights (untrained\<lparr>store := \<lambda>_. partialOptions\<rparr>) = [[0], [0]] \<and>
   costHistory (untrained\<lparr>store := \<lambda>_. partialOptions\<rparr>) = [] \<and>
   constructor (\<lambda>_. partialOptions) 1 [[0], [2]] [[0], [1]] None = Inr (untrained\<lparr>store := (\<lambda>_. partialOptions)(1 := defaults), options := 1\<rparr>) \<and>
   iterations (store (untrained\<lparr>store := (\<lambda>_. partialOptions)(1 := defaults), options := 1\<rparr>) 1) = Some 1000"
proof -
  have c: "constructor (\<lambda>_. partialOptions) 1 [[0], [2]] [[0], [1]] (Some 0) =
             Inr (untrained\<lparr>store := \<lambda>_. partialOptions\<rparr>)"
    by (simp add: constructor_example untrained_def)
  have d: "constructor (\<lambda>_. partialOptions) 1 [[0], [2]] [[0], [1]] None =
             Inr (untrained\<lparr>store := (\<lambda>_. partialOptions)(1 := defaults), options := 1\<rparr>)"
    by (simp add: constructor_def preprocessFeatures_def tensor2d_def colsT_def standardize_def
      Let_def applyMoments_def zipRow_def momentsMean_def momentsVariance_def column_def zeros_def
      numeral_2_eq_2 untrained_def)
  show ?thesis
    using c d defaults_only_without_argument[OF c] defaults_only_without_argument[OF d]
    by (simp add: partialOptions_def untrained_def defaults_def zeros_def colsT_def)
qed

section \<open>Prediction\<close>

text \<open>
  C9.  For a model that holds its moments, \<open>predict\<close> answers with one label per
  observation, in the order of the observations: the label of a row is 1 when the sigmoid
  of the product of the processed row with the weight column is strictly greater than
  the decision boundary, and 0 otherwise, so a probability equal to the boundary gives 0
  (on the untrained model below every probability is 1/2, the boundary is 1/2 and
  every label is 0).  The state is returned as it was.
\<close>

theorem predict_threshold:
  assumes "mean s = Some m" "variance s = Some v"
    and "observations \<noteq> []" "list_all (\<lambda>row. length row = length m) observations"
    and "length v = length m" "list_all (\<lambda>x. 0 < x) v"
    and "hasShape (length m + 1) 1 (weights s)"
    and "decisionBoundary (store s (options s)) = Some d"
  shows "predict observations s =
           Inr (map (\<lambda>row. [if sigmoid (dot (processedRow m v row) (column 0 (weights s))) > d
                             then 1 else 0]) observations, s)"
proof -
  let ?P = "map (processedRow m v) observations"
  have P: "preprocessFeatures observations s = Inr (?P, s)"
    by (rule preprocessFeatures_stored[OF assms(1-6)])
  have len: "length (weights s) = length m + 1"
    using assms(7) by (simp add: hasShape_def)
  have "colsT ?P = length (weights s)"
    using assms(3,4) len by (cases observations) (simp_all add: colsT_def)
  moreover have "?P \<noteq> []" "weights s \<noteq> []" "hasShape (length (weights s)) 1 (weights s)"
    using assms(3,7) len by auto
  ultimately have "matMul ?P (weights s) = Inr (map (\<lambda>row. [dot row (column 0 (weights s))]) ?P)"
    by (intro matMul_column)
  with P assms(8) show ?thesis
    by (simp add: predict_def mapT_def comp_def)
qed

theorem predict_threshold_witness:
  "constructor (\<lambda>_. defaults) 1 [[0], [2]] [[0], [1]] (Some 0) = Inr untrained \<and>
   mean untrained = Some [1] \<and> variance untrained = Some [1] \<and>
   decisionBoundary (store untrained (options untrained)) = Some (1/2) \<and>
   hasShape 2 1 (weights untrained) \<and>
   sigmoid (dot (processedRow [1] [1] [3]) (column 0 (weights untrained))) = 1/2 \<and>
   predict [[3], [0]] untrained = Inr ([[0], [0]], untrained)"
proof -
  have h: "mean untrained = Some [1]" "variance untrained = Some [1]"
    "[[3], [0::real]] \<noteq> []" "list_all (\<lambda>row. length row = length [1::real]) [[3], [0::real]]"
    "length [1::real] = length [1::real]" "list_all (\<lambda>x. 0 < x) [1::real]"
    "hasShape (length [1::real] + 1) 1 (weights untrained)"
    "decisionBoundary (store untrained (options untrained)) = Some (1/2)"
    by (simp_all add: untrained_def hasShape_def defaults_def)
  show ?thesis
    using h predict_threshold[OF h]
    by (simp add: constructor_example untrained_def processedRow_def dot_def column_def
          hasShape_def)
qed

section \<open>What the calls leave as it is\<close>

lemma evolves_refl [simp]: "evolves s s"
  by (simp add: evolves_def)

lemma evolves_trans: "evolves s t \<Longrightarrow> evolves t u \<Longrightarrow> evolves s u"
  by (simp add: evolves_def)


lemma gradientDescent_frame:
  "gradientDescent fs ls s = Inr s' \<Longrightarrow> evolves s s' \<and> store s' = store s \<and> costHistory s' = costHistory s"
  by (auto simp: gradientDescent_def evolves_def Let_def split: sum.splits if_splits option.splits)

lemma batchStep_frame:
  "batchStep j s = Inr s' \<Longrightarrow> evolves s s' \<and> store s' = store s \<and> costHistory s' = costHistory s"
  by (auto simp: batchStep_def Let_def split: sum.splits option.splits dest: gradientDescent_frame)

lemma batchLoop_unfold:
  "batchLoop j q s = Inr s' \<longleftrightarrow>
     (if int j < q then \<exists>u. batchStep j s = Inr u \<and> batchLoop (j + 1) q u = Inr s' else s' = s)"
  by (subst batchLoop.simps) (auto split: sum.splits)

lemma batchLoop_frame:
  "batchLoop j q s = Inr s' \<Longrightarrow> evolves s s' \<and> store s' = store s \<and> costHistory s' = costHistory s"
proof (induction j q s rule: batchLoop.induct)
  case (1 j q s)
  show ?case
  proof (cases "int j < q")
    case True
    with "1.prems" obtain u where u: "batchStep j s = Inr u" "batchLoop (j + 1) q u = Inr s'"
      by (auto simp: batchLoop_unfold[of j])
    from "1.IH"[OF True u(1) u(2)] batchStep_frame[OF u(1)] show ?thesis
      by (auto intro: evolves_trans)
  next
    case False
    with "1.prems" show ?thesis by (simp add: batchLoop_unfold[of j])
  qed
qed

lemma batches_frame:
  "batches q s = Inr s' \<Longrightarrow> evolves s s' \<and> store s' = store s \<and> costHistory s' = costHistory s"
  by (auto simp: batches_def split: count.splits dest: batchLoop_frame)

lemma recordCost_frame:
  "recordCost s = Inr s' \<Longrightarrow>
     evolves s s' \<and> store s' = store s \<and> weights s' = weights s \<and>
     (\<exists>c. costHistory s' = c # costHistory s)"
  by (auto simp: recordCost_def evolves_def Let_def split: sum.splits if_splits list.splits)

lemma optimizeLearningRate_frame:
  "optimizeLearningRate s = Inr s' \<Longrightarrow>
     evolves s s' \<and> weights s' = weights s \<and> costHistory s' = costHistory s"
  by (auto simp: optimizeLearningRate_def evolves_def split: if_splits option.splits)

lemma epoch_frame:
  assumes "epoch q s = Inr s'"
  shows "evolves s s'" and "\<exists>c. costHistory s' = c # costHistory s"
proof -
  from assms obtain s1 s2 where e: "batches q s = Inr s1" "recordCost s1 = Inr s2"
      "optimizeLearningRate s2 = Inr s'"
    by (auto simp: epoch_def split: sum.splits)
  from batches_frame[OF e(1)] recordCost_frame[OF e(2)] optimizeLearningRate_frame[OF e(3)]
  show "evolves s s'" by (blast intro: evolves_trans)
  from batches_frame[OF e(1)] recordCost_frame[OF e(2)] optimizeLearningRate_frame[OF e(3)]
  show "\<exists>c. costHistory s' = c # costHistory s" by auto
qed

lemma epochLoop_unfold:
  "epochLoop i q s = Inr s' \<longleftrightarrow>
     (case iterations (store s (options s)) of None \<Rightarrow> s' = s
      | Some n \<Rightarrow> if int i < n then \<exists>u. epoch q s = Inr u \<and> epochLoop (i + 1) q u = Inr s'
                  else s' = s)"
  by (subst epochLoop.simps) (auto split: sum.splits option.splits)

lemma epochLoop_frame: "epochLoop i q s = Inr s' \<Longrightarrow> evolves s s'"
proof (induction i q s rule: epochLoop.induct)
  case (1 i q s)
  show ?case
  proof (cases "iterations (store s (options s))")
    case None
    with "1.prems" show ?thesis by (simp add: epochLoop_unfold[of i])
  next
    case (Some n)
    show ?thesis
    proof (cases "int i < n")
      case True
      with "1.prems" Some obtain u where u: "epoch q s = Inr u" "epochLoop (i + 1) q u = Inr s'"
        by (auto simp: epochLoop_unfold[of i])
      from "1.IH"[OF Some True u(1) u(2)] epoch_frame(1)[OF u(1)] show ?thesis
        by (blast intro: evolves_trans)
    next
      case False
      with "1.prems" Some show ?thesis by (simp add: epochLoop_unfold[of i])
    qed
  qed
qed

lemma train_frame: "train s = Inr s' \<Longrightarrow> evolves s s'"
  unfolding train_def by (rule epochLoop_frame)

lemma predict_frame:
  assumes "mean s = Some m" "variance s = Some v" "predict obs s = Inr (p, s')"
  shows "s' = s"
proof -
  from assms(3) obtain P s1 where P: "preprocessFeatures obs s = Inr (P, s1)" and "s' = s1"
    by (auto simp: predict_def split: sum.splits option.splits)
  with preprocessFeatures_storedD(1)[OF assms(1,2) P] show ?thesis by simp
qed

lemma test_frame:
  assumes "mean s = Some m" "variance s = Some v" "test tf tls s = Inr (acc, s')"
  shows "s' = s"
proof -
  from assms(3) obtain p where "predict tf s = Inr (p, s')"
    by (auto simp: test_def Let_def split: sum.splits if_splits)
  then show ?thesis by (rule predict_frame[OF assms(1,2)])
qed

lemma perform_frame:
  assumes "mean s = Some m" "variance s = Some v" "perform c s = Inr s'"
  shows "evolves s s'"
proof (cases c)
  case Train
  with assms(3) show ?thesis by (simp add: train_frame)
next
  case (Predict obs)
  with assms(3) obtain p where "predict obs s = Inr (p, s')"
    by (auto split: sum.splits)
  from predict_frame[OF assms(1,2) this] show ?thesis by simp
next
  case (Test tf tls)
  with assms(3) obtain acc where "test tf tls s = Inr (acc, s')"
    by (auto split: sum.splits)
  from test_frame[OF assms(1,2) this] show ?thesis by simp
qed

lemma performAll_frame:
  "mean s = Some m \<Longrightarrow> variance s = Some v \<Longrightarrow> performAll cs s = Inr s' \<Longrightarrow> evolves s s'"
proof (induction cs arbitrary: s)
  case Nil
  then show ?case by simp
next
  case (Cons c cs)
  from Cons.prems(3) obtain u where u: "perform c s = Inr u" "performAll cs u = Inr s'"
    by (auto split: sum.splits)
  have su: "evolves s u" by (rule perform_frame[OF Cons.prems(1,2) u(1)])
  then have "mean u = Some m" "variance u = Some v"
    using Cons.prems(1,2) by (simp_all add: evolves_def)
  from Cons.IH[OF this u(2)] su show ?case by (rule evolves_trans[rotated])
qed

section \<open>Training returns on a well-shaped instance\<close>

lemma hasShape_slice:
  "hasShape n c A \<Longrightarrow> a + b \<le> n \<Longrightarrow> hasShape b c (take b (drop a A))"
  by (auto simp: hasShape_def list_all_iff dest: in_set_takeD in_set_dropD)

lemma sliceRows_Inr:
  "0 \<le> a \<Longrightarrow> 0 \<le> b \<Longrightarrow> a + b \<le> int (length A) \<Longrightarrow>
   sliceRows a b A = Inr (take (nat b) (drop (nat a) A))"
  by (simp add: sliceRows_def)

lemma gradientDescent_wellShaped:
  assumes "wellShaped n c s" "hasShape b c X" "hasShape b 1 y" "0 < b"
    and "learningRate (store s (options s)) = Some lr"
  shows "\<exists>s'. gradientDescent X y s = Inr s' \<and> wellShaped n c s'"
proof -
  from assms(1) have w: "hasShape c 1 (weights s)" and c: "0 < c"
    by (simp_all add: wellShaped_def)
  from gradientDescent_hasShape[OF assms(2,3) w assms(4) c assms(5)] assms(1)
  show ?thesis by (simp add: wellShaped_def)
qed

lemma batchStep_wellShaped:
  assumes "wellShaped n c s" "learningRate (store s (options s)) = Some lr"
    and "batchSize (store s (options s)) = Some b" "1 \<le> b" "(int j + 1) * b \<le> int n"
  shows "\<exists>s'. batchStep j s = Inr s' \<and> wellShaped n c s'"
proof -
  from assms(1) have F: "hasShape n c (features s)" and L: "hasShape n 1 (labels s)"
    by (simp_all add: wellShaped_def)
  have le: "int j * b + b \<le> int n" using assms(5) by (simp add: algebra_simps)
  have nn: "0 \<le> int j * b" "0 \<le> b" using assms(4) by simp_all
  have le': "nat (int j * b) + nat b \<le> n" using le nn by linarith
  have lenF: "length (features s) = n" and lenL: "length (labels s) = n"
    using F L by (simp_all add: hasShape_def)
  have sf: "sliceRows (int j * b) b (features s) = Inr (take (nat b) (drop (nat (int j * b)) (features s)))"
    using le nn lenF by (intro sliceRows_Inr) simp_all
  have sl: "sliceRows (int j * b) b (labels s) = Inr (take (nat b) (drop (nat (int j * b)) (labels s)))"
    using le nn lenL by (intro sliceRows_Inr) simp_all
  have "0 < nat b" using assms(4) by simp
  from gradientDescent_wellShaped[OF assms(1) hasShape_slice[OF F le'] hasShape_slice[OF L le']
      this assms(2)]
  show ?thesis using assms(3) sf sl by (simp add: batchStep_def Let_def)
qed

lemma batchLoop_wellShaped:
  "wellShaped n c s \<Longrightarrow> learningRate (store s (options s)) = Some lr \<Longrightarrow>
   batchSize (store s (options s)) = Some b \<Longrightarrow> 1 \<le> b \<Longrightarrow> q * b \<le> int n \<Longrightarrow>
   \<exists>s'. batchLoop j q s = Inr s' \<and> wellShaped n c s'"
proof (induction j q s rule: batchLoop.induct)
  case (1 j q s)
  show ?case
  proof (cases "int j < q")
    case True
    then have "(int j + 1) * b \<le> q * b" using "1.prems"(4) by (intro mult_right_mono) simp_all
    with "1.prems"(5) have "(int j + 1) * b \<le> int n" by simp
    from batchStep_wellShaped[OF "1.prems"(1,2,3,4) this]
    obtain u where u: "batchStep j s = Inr u" "wellShaped n c u" by blast
    from batchStep_frame[OF u(1)] have "store u = store s" "options u = options s"
      by (simp_all add: evolves_def)
    with "1.prems" have "learningRate (store u (options u)) = Some lr"
      "batchSize (store u (options u)) = Some b" by simp_all
    from "1.IH"[OF True u(1) u(2) this "1.prems"(4,5)] u(1) True show ?thesis
      by (simp add: batchLoop_unfold[of j])
  next
    case False
    with "1.prems"(1) show ?thesis by (simp add: batchLoop_unfold[of j])
  qed
qed

lemma recordCost_wellShaped:
  assumes "wellShaped n c s"
  shows "\<exists>cost. recordCost s = Inr (s\<lparr>costHistory := cost # costHistory s\<rparr>)"
proof -
  from assms have h: "hasShape n c (features s)" "hasShape n 1 (labels s)"
    "hasShape c 1 (weights s)" "0 < n" "0 < c"
    by (simp_all add: wellShaped_def)
  from recordCost_tab[OF h(4,5) tab_of_hasShape[OF h(1)] tab_of_hasShape[OF h(2)]
      tab_of_hasShape[OF h(3)]] show ?thesis by blast
qed

lemma optimizeLearningRate_total:
  assumes "learningRate (store s (options s)) = Some lr"
  shows "\<exists>s'. optimizeLearningRate s = Inr s' \<and> learningRate (store s' (options s')) \<noteq> None \<and>
           features s' = features s \<and> labels s' = labels s \<and> weights s' = weights s \<and>
           costHistory s' = costHistory s"
proof (cases "length (costHistory s) < 2")
  case True
  with assms show ?thesis by (simp add: optimizeLearningRate_def del: not_None_eq)
next
  case False
  show ?thesis
  proof (cases "costHistory s ! 0 > costHistory s ! 1")
    case True
    with False assms show ?thesis by (simp add: optimizeLearningRate_def del: not_None_eq)
  next
    case False
    with \<open>\<not> length (costHistory s) < 2\<close> assms show ?thesis
      by (simp add: optimizeLearningRate_def del: not_None_eq)
  qed
qed

lemma epoch_wellShaped:
  assumes "wellShaped n c s" "learningRate (store s (options s)) = Some lr"
    and "batchSize (store s (options s)) = Some b" "1 \<le> b"
  shows "\<exists>s' cost. epoch (Count (int n div b)) s = Inr s' \<and> wellShaped n c s' \<and>
           learningRate (store s' (options s')) \<noteq> None \<and>
           costHistory s' = cost # costHistory s"
proof -
  have "int n div b * b \<le> int n"
    using assms(4) by (simp add: minus_mod_eq_div_mult[symmetric])
  from batchLoop_wellShaped[OF assms this, of 0]
  obtain s1 where s1: "batchLoop 0 (int n div b) s = Inr s1" "wellShaped n c s1" by blast
  from batchLoop_frame[OF s1(1)] assms(2)
  have f1: "learningRate (store s1 (options s1)) = Some lr" "costHistory s1 = costHistory s"
    by (simp_all add: evolves_def)
  from recordCost_wellShaped[OF s1(2)] obtain cost
    where s2: "recordCost s1 = Inr (s1\<lparr>costHistory := cost # costHistory s1\<rparr>)" by blast
  let ?s2 = "s1\<lparr>costHistory := cost # costHistory s1\<rparr>"
  have "learningRate (store ?s2 (options ?s2)) = Some lr" using f1 by simp
  from optimizeLearningRate_total[OF this]
  obtain s' where s': "optimizeLearningRate ?s2 = Inr s'"
    "learningRate (store s' (options s')) \<noteq> None"
    "features s' = features ?s2" "labels s' = labels ?s2" "weights s' = weights ?s2"
    "costHistory s' = costHistory ?s2" by blast
  have "wellShaped n c s'"
    using s1(2) s'(3,4,5) by (simp add: wellShaped_def)
  with s1(1) s2 s' f1(2) show ?thesis
    by (simp add: epoch_def batches_def)
qed

lemma epochLoop_total:
  "wellShaped n c s \<Longrightarrow> learningRate (store s (options s)) = Some lr \<Longrightarrow>
   batchSize (store s (options s)) = Some b \<Longrightarrow> 1 \<le> b \<Longrightarrow>
   iterations (store s (options s)) = Some k \<Longrightarrow> q = Count (int n div b) \<Longrightarrow>
   \<exists>s'. epochLoop i q s = Inr s' \<and> wellShaped n c s' \<and>
      learningRate (store s' (options s')) \<noteq> None \<and>
      length (costHistory s') = length (costHistory s) + nat (k - int i)"
proof (induction i q s arbitrary: lr rule: epochLoop.induct)
  case (1 i q s)
  show ?case
  proof (cases "int i < k")
    case True
    from epoch_wellShaped[OF "1.prems"(1-4)] "1.prems"(6)
    obtain u cost where u0: "epoch q s = Inr u" "wellShaped n c u"
      "learningRate (store u (options u)) \<noteq> None" "costHistory u = cost # costHistory s"
      by blast
    then obtain lr' where u: "epoch q s = Inr u" "wellShaped n c u"
      "learningRate (store u (options u)) = Some lr'" "costHistory u = cost # costHistory s"
      by auto
    have "batchSize (store u (options u)) = Some b" "iterations (store u (options u)) = Some k"
      using epoch_frame(1)[OF u(1)] "1.prems"(3,5) by (simp_all add: evolves_def)
    from "1.IH"[OF "1.prems"(5) True u(1) u(2) u(3) this(1) "1.prems"(4) this(2) "1.prems"(6)]
    obtain s' where s': "epochLoop (i + 1) q u = Inr s'" "wellShaped n c s'"
      "learningRate (store s' (options s')) \<noteq> None"
      "length (costHistory s') = length (costHistory u) + nat (k - int (i + 1))" by blast
    have "length (costHistory s') = length (costHistory s) + nat (k - int i)"
      using s'(4) u(4) True by simp
    with s'(1,2,3) u(1) True "1.prems"(5) show ?thesis
      by (auto simp: epochLoop_unfold[of i])
  next
    case False
    with "1.prems" show ?thesis by (simp add: epochLoop_unfold[of i])
  qed
qed

lemma constructor_wellShaped:
  assumes "constructor st fresh fs ls optArg = Inr s" "hasShape (length fs) 1 ls"
  shows "wellShaped (length fs) (colsT fs + 1) s"
proof -
  note c = constructorD[OF assms(1)]
  have "hasShape (length fs) (colsT fs + 1) (features s)"
    using c(2) unfolding c(6) by (simp add: hasShape_def list_all_iff)
  moreover have "hasShape (colsT fs + 1) 1 (weights s)"
    unfolding c(11) by (simp add: hasShape_def zeros_def list_all_iff)
  ultimately show ?thesis
    using c(1,7) assms(2) by (simp add: wellShaped_def)
qed

lemma train_total:
  assumes "wellShaped n c s" "fullOptions (store s (options s))"
    and "iterations (store s (options s)) = Some k"
  shows "\<exists>s'. train s = Inr s' \<and> wellShaped n c s' \<and> fullOptions (store s' (options s')) \<and>
           iterations (store s' (options s')) = Some k \<and>
           length (costHistory s') = length (costHistory s) + nat k"
proof -
  from assms(2) obtain lr b where o: "learningRate (store s (options s)) = Some lr"
    "batchSize (store s (options s)) = Some b" "1 \<le> b"
    by (auto simp: fullOptions_def split: option.splits)
  from assms(1) have n: "rowsT (features s) = n"
    by (simp add: wellShaped_def hasShape_def rowsT_def)
  have q: "batchQuantity (rowsT (features s)) (batchSize (store s (options s))) = Count (int n div b)"
    using o(2,3) n by (simp add: batchQuantity_def)
  from epochLoop_total[OF assms(1) o assms(3) refl, of 0]
  obtain s' where s': "epochLoop 0 (Count (int n div b)) s = Inr s'" "wellShaped n c s'"
    "learningRate (store s' (options s')) \<noteq> None"
    "length (costHistory s') = length (costHistory s) + nat k" by auto
  have ev: "evolves s s'" using s'(1) by (rule epochLoop_frame)
  then have "fullOptions (store s' (options s'))" "iterations (store s' (options s')) = Some k"
    using assms(2,3) s'(3) by (simp_all add: evolves_def fullOptions_def)
  with s' q show ?thesis by (simp add: train_def)
qed

text \<open>
  C8.  For an instance constructed from a feature matrix and a one-column label matrix of
  as many rows, with a full hyperparameters record of \<open>k\<close> iterations: \<open>train\<close> returns, and
  the cost history has \<open>k\<close> entries after it; a second \<open>train\<close> on the resulting instance
  returns too, and the cost history then has \<open>2 k\<close> entries.
\<close>

theorem train_appends_iterations:
  assumes "constructor st fresh fs ls optArg = Inr s0" and "hasShape (length fs) 1 ls"
    and "fullOptions (store s0 (options s0))" and "iterations (store s0 (options s0)) = Some k"
  shows "\<exists>s1 s2. train s0 = Inr s1 \<and> length (costHistory s1) = nat k \<and>
                 train s1 = Inr s2 \<and> length (costHistory s2) = 2 * nat k"
proof -
  note w = constructor_wellShaped[OF assms(1,2)]
  from train_total[OF w assms(3,4)] constructorD(10)[OF assms(1)]
  obtain s1 where s1: "train s0 = Inr s1" "wellShaped (length fs) (colsT fs + 1) s1"
    "fullOptions (store s1 (options s1))" "iterations (store s1 (options s1)) = Some k"
    "length (costHistory s1) = nat k" by auto
  from train_total[OF s1(2,3,4)] s1(5)
  obtain s2 where "train s1 = Inr s2" "length (costHistory s2) = 2 * nat k" by auto
  with s1(1,5) show ?thesis by blast
qed

theorem train_appends_iterations_witness:
  "constructor callerStore 1 [[0], [2]] [[0], [1]] (Some 0) = Inr (untrained\<lparr>store := callerStore\<rparr>) \<and>
   hasShape (length [[0::real], [2]]) 1 [[0], [1]] \<and>
   fullOptions (store (untrained\<lparr>store := callerStore\<rparr>) (options (untrained\<lparr>store := callerStore\<rparr>))) \<and>
   (\<exists>s1 s2. train (untrained\<lparr>store := callerStore\<rparr>) = Inr s1 \<and> length (costHistory s1) = 2 \<and>
            train s1 = Inr s2 \<and> length (costHistory s2) = 4)"
proof -
  let ?s0 = "untrained\<lparr>store := callerStore\<rparr>"
  have h: "constructor callerStore 1 [[0], [2]] [[0], [1]] (Some 0) = Inr ?s0"
    "hasShape (length [[0::real], [2]]) 1 [[0], [1]]"
    "fullOptions (store ?s0 (options ?s0))" "iterations (store ?s0 (options ?s0)) = Some 2"
    by (simp_all add: constructor_callerStore untrained_def hasShape_def fullOptions_def twoEpochs_def)
  show ?thesis
    using h train_appends_iterations[OF h] by simp
qed

section \<open>The running example, evaluated\<close>

lemma sigmoid_minus: "sigmoid (- x) = 1 - sigmoid x"
proof -
  have "exp x * exp (- x) = 1" by (simp add: exp_minus)
  have p: "1 + exp x \<noteq> 0" "1 + exp (- x) \<noteq> 0"
    by (smt (verit) exp_gt_zero)+
  have "1 / (1 + exp x) + 1 / (1 + exp (- x)) = 1"
    using p by (simp add: field_simps exp_minus) 
  then show ?thesis by (simp add: sigmoid_def)
qed

lemma sigmoid_bounds: "0 < sigmoid x" "sigmoid x < 1"
proof -
  have "0 < exp (- x)" by simp
  then show "0 < sigmoid x" "sigmoid x < 1"
    by (simp_all add: sigmoid_def add_pos_pos)
qed

lemma sigmoid_strict_mono: "x < y \<Longrightarrow> sigmoid x < sigmoid y"
  unfolding sigmoid_def
  by (intro divide_strict_left_mono) (simp_all add: add_pos_pos)

lemma example_shapes:
  "hasShape 2 2 (features (exampleAt t h lr))" "hasShape 2 1 (labels (exampleAt t h lr))"
  "hasShape 2 1 (weights (exampleAt t h lr))"
  "learningRate (store (exampleAt t h lr) (options (exampleAt t h lr))) = Some lr"
  by (simp_all add: exampleAt_def hasShape_def)

lemma example_gradientDescent:
  "gradientDescent [[1, -1], [1, 1]] [[0], [1]] (exampleAt t h lr) =
     Inr (exampleAt (t + lr * (1 - sigmoid t)) h lr)"
proof -
  have X: "hasShape 2 2 [[1, -1], [1, 1::real]]" and y: "hasShape 2 1 [[0], [1::real]]"
    by (simp_all add: hasShape_def)
  have pos: "(0::nat) < 2" by simp
  have "gradientDescent [[1, -1], [1, 1]] [[0], [1]] (exampleAt t h lr) =
     Inr (exampleAt t h lr\<lparr>weights := [[0], [t + lr * (1 - sigmoid t)]]\<rparr>)"
    by (subst gradientDescent_hasShape[OF X y example_shapes(3) pos pos example_shapes(4)])
       (simp add: exampleAt_def tab_def numeral_2_eq_2 lessThan_Suc sigmoid_minus field_simps)
  then show ?thesis by (simp add: exampleAt_def)
qed


lemma example_recordCost:
  "recordCost (exampleAt t h lr) = Inr (exampleAt t (- ln (sigmoid t) # h) lr)"
proof -
  have pos: "(0::nat) < 2" by simp
  have "recordCost (exampleAt t h lr) =
          Inr (exampleAt t h lr\<lparr>costHistory := - ln (sigmoid t) # costHistory (exampleAt t h lr)\<rparr>)"
    by (subst recordCost_tab[OF pos pos tab_of_hasShape[OF example_shapes(1)]
          tab_of_hasShape[OF example_shapes(2)] tab_of_hasShape[OF example_shapes(3)]])
       (simp add: exampleAt_def numeral_2_eq_2 lessThan_Suc sigmoid_minus)
  then show ?thesis by (simp add: exampleAt_def)
qed

lemma example_batches:
  "batches (Count 1) (exampleAt t h lr) = Inr (exampleAt (t + lr * (1 - sigmoid t)) h lr)"
proof -
  have b: "batchSize (store (exampleAt t h lr) (options (exampleAt t h lr))) = Some 2"
    by (simp add: exampleAt_def callerStore_def twoEpochs_def)
  have f: "features (exampleAt t h lr) = [[1, -1], [1, 1]]" "labels (exampleAt t h lr) = [[0], [1]]"
    by (simp_all add: exampleAt_def)
  have "batchStep 0 (exampleAt t h lr) = Inr (exampleAt (t + lr * (1 - sigmoid t)) h lr)"
    by (simp add: batchStep_def b f sliceRows_def example_gradientDescent)
  then show ?thesis
    by (simp add: batches_def batchLoop.simps[of 0] batchLoop.simps[of "Suc 0"])
qed

lemma example_epoch_first:
  "epoch (Count 1) (exampleAt t [] lr) =
     Inr (exampleAt (t + lr * (1 - sigmoid t)) [- ln (sigmoid (t + lr * (1 - sigmoid t)))] lr)"
  by (simp add: epoch_def example_batches example_recordCost optimizeLearningRate_def)
     (simp add: exampleAt_def)

lemma example_epoch_next:
  assumes "- ln (sigmoid (t + lr * (1 - sigmoid t))) \<le> c"
  shows "epoch (Count 1) (exampleAt t (c # h) lr) =
     Inr (exampleAt (t + lr * (1 - sigmoid t))
            (- ln (sigmoid (t + lr * (1 - sigmoid t))) # c # h) (lr * (105/100)))"
  using assms
  by (simp add: epoch_def example_batches example_recordCost optimizeLearningRate_def)
     (simp add: exampleAt_def)

lemma example_cost_decreases:
  "- ln (sigmoid (3/2 - sigmoid (1/2))) < - ln (sigmoid (1/2))"
proof -
  have "(1::real)/2 < 3/2 - sigmoid (1/2)" using sigmoid_bounds(2)[of "1/2"] by simp
  then have "sigmoid (1/2) < sigmoid (3/2 - sigmoid (1/2))" by (rule sigmoid_strict_mono)
  then have "ln (sigmoid (1/2)) < ln (sigmoid (3/2 - sigmoid (1/2)))"
    using sigmoid_bounds(1)[of "1/2"] by (subst ln_less_cancel_iff) (auto intro: less_trans)
  then show ?thesis by simp
qed

lemma example_epoch1:
  "epoch (Count 1) (exampleAt 0 [] 1) = Inr (exampleAt (1/2) [- ln (sigmoid (1/2))] 1)"
  using example_epoch_first[of 0 1] by simp

lemma example_epoch2:
  "epoch (Count 1) (exampleAt (1/2) [- ln (sigmoid (1/2))] 1) =
     Inr (exampleAt (3/2 - sigmoid (1/2))
            [- ln (sigmoid (3/2 - sigmoid (1/2))), - ln (sigmoid (1/2))] (21/20))"
  using example_epoch_next[of "1/2" 1 "- ln (sigmoid (1/2))" "[]"] example_cost_decreases
  by (simp add: algebra_simps)

lemma example_train:
  "train (exampleAt 0 [] 1) =
     Inr (exampleAt (3/2 - sigmoid (1/2))
            [- ln (sigmoid (3/2 - sigmoid (1/2))), - ln (sigmoid (1/2))] (21/20))"
proof -
  have q: "batchQuantity (rowsT (features (exampleAt 0 [] 1)))
             (batchSize (store (exampleAt 0 [] 1) (options (exampleAt 0 [] 1)))) = Count 1"
    by (simp add: batchQuantity_def exampleAt_def callerStore_def twoEpochs_def rowsT_def)
  have it: "iterations (store (exampleAt t h lr) (options (exampleAt t h lr))) = Some 2" for t h lr
    by (simp add: exampleAt_def callerStore_def twoEpochs_def)
  show ?thesis
    unfolding train_def q
    by (simp add: epochLoop.simps[of 0] epochLoop.simps[of "Suc 0"] epochLoop.simps[of "Suc (Suc 0)"]
          it example_epoch1 example_epoch2)
qed

lemma example_constructor:
  "constructor callerStore fresh [[0], [2]] [[0], [1]] (Some 0) = Inr (exampleAt 0 [] 1)"
proof -
  have "callerStore = callerStore(0 := twoEpochs\<lparr>learningRate := Some 1\<rparr>)"
    by (simp add: fun_eq_iff twoEpochs_def)
  then show ?thesis by (simp add: constructor_callerStore exampleAt_def)
qed

section \<open>The order of the cost history\<close>

lemma crossEntropy_cong:
  "features s' = features s \<Longrightarrow> labels s' = labels s \<Longrightarrow> weights s' = weights s \<Longrightarrow>
   crossEntropy s' = crossEntropy s"
  by (simp add: crossEntropy_def)

lemma recordCost_value:
  assumes "wellShaped n c s"
  shows "recordCost s = Inr (s\<lparr>costHistory := crossEntropy s # costHistory s\<rparr>)"
proof -
  from assms have h: "hasShape n c (features s)" "hasShape n 1 (labels s)"
    "hasShape c 1 (weights s)" "0 < n" "0 < c"
    by (simp_all add: wellShaped_def)
  have len: "length (features s) = n" "length (weights s) = c"
    using h by (simp_all add: hasShape_def)
  show ?thesis
    by (subst recordCost_tab[OF h(4,5) tab_of_hasShape[OF h(1)] tab_of_hasShape[OF h(2)]
          tab_of_hasShape[OF h(3)]]) (simp add: crossEntropy_def len)
qed

lemma epoch_cost:
  assumes "wellShaped n c s" "learningRate (store s (options s)) = Some lr"
    and "batchSize (store s (options s)) = Some b" "1 \<le> b"
    and "epoch (Count (int n div b)) s = Inr u"
  shows "costHistory u = crossEntropy u # costHistory s"
proof -
  from assms(5) obtain s1 s2 where e: "batchLoop 0 (int n div b) s = Inr s1"
      "recordCost s1 = Inr s2" "optimizeLearningRate s2 = Inr u"
    by (auto simp: epoch_def batches_def split: sum.splits)
  have "int n div b * b \<le> int n"
    using assms(4) by (simp add: minus_mod_eq_div_mult[symmetric])
  from batchLoop_wellShaped[OF assms(1-4) this, of 0] e(1) have w1: "wellShaped n c s1" by simp
  from recordCost_value[OF w1] e(2)
  have s2: "s2 = s1\<lparr>costHistory := crossEntropy s1 # costHistory s1\<rparr>" by simp
  from batchLoop_frame[OF e(1)] have h1: "costHistory s1 = costHistory s" by simp
  from optimizeLearningRate_frame[OF e(3)]
  have u: "features u = features s2" "labels u = labels s2" "weights u = weights s2"
    "costHistory u = costHistory s2" by (simp_all add: evolves_def)
  have "crossEntropy u = crossEntropy s1"
    using u s2 by (intro crossEntropy_cong) simp_all
  with u(4) s2 h1 show ?thesis by simp
qed

lemma epochLoop_costs:
  "wellShaped n c s \<Longrightarrow> learningRate (store s (options s)) = Some lr \<Longrightarrow>
   batchSize (store s (options s)) = Some b \<Longrightarrow> 1 \<le> b \<Longrightarrow>
   iterations (store s (options s)) = Some k \<Longrightarrow> q = Count (int n div b) \<Longrightarrow>
   epochLoop i q s = Inr s' \<Longrightarrow>
   costHistory s' = rev (map crossEntropy (epochStates (nat (k - int i)) q s)) @ costHistory s \<and>
   length (epochStates (nat (k - int i)) q s) = nat (k - int i)"
proof (induction i q s arbitrary: lr rule: epochLoop.induct)
  case (1 i q s)
  show ?case
  proof (cases "int i < k")
    case True
    with "1.prems"(5,7) obtain u where u: "epoch q s = Inr u" "epochLoop (i + 1) q u = Inr s'"
      by (auto simp: epochLoop_unfold[of i])
    from epoch_wellShaped[OF "1.prems"(1-4)] u(1) "1.prems"(6)
    obtain lr' where wu: "wellShaped n c u" "learningRate (store u (options u)) = Some lr'"
      by auto
    have ou: "batchSize (store u (options u)) = Some b" "iterations (store u (options u)) = Some k"
      using epoch_frame(1)[OF u(1)] "1.prems"(3,5) by (simp_all add: evolves_def)
    have cu: "costHistory u = crossEntropy u # costHistory s"
      using epoch_cost[OF "1.prems"(1-4)] u(1) "1.prems"(6) by simp
    have n: "nat (k - int i) = Suc (nat (k - int (i + 1)))" using True by simp
    from "1.IH"[OF "1.prems"(5) True u(1) wu ou(1) "1.prems"(4) ou(2) "1.prems"(6) u(2)]
    show ?thesis unfolding n by (simp add: u(1) cu)
  next
    case False
    with "1.prems"(5,7) show ?thesis by (simp add: epochLoop_unfold[of i])
  qed
qed

lemma example_crossEntropy: "crossEntropy (exampleAt t h lr) = - ln (sigmoid t)"
  by (simp add: crossEntropy_def exampleAt_def numeral_2_eq_2 lessThan_Suc sigmoid_minus)

lemma example_epochStates:
  "epochStates 2 (Count 1) (exampleAt 0 [] 1) =
     [exampleAt (1/2) [- ln (sigmoid (1/2))] 1,
      exampleAt (3/2 - sigmoid (1/2))
        [- ln (sigmoid (3/2 - sigmoid (1/2))), - ln (sigmoid (1/2))] (21/20)]"
  by (simp add: numeral_2_eq_2 example_epoch1 example_epoch2)

lemma example_wellShaped: "wellShaped 2 2 (exampleAt t h lr)"
  using example_shapes(1-3)[of t h lr] by (simp add: wellShaped_def)

lemma example_options:
  "fullOptions (store (exampleAt t h lr) (options (exampleAt t h lr)))"
  "iterations (store (exampleAt t h lr) (options (exampleAt t h lr))) = Some 2"
  "batchSize (store (exampleAt t h lr) (options (exampleAt t h lr))) = Some 2"
  by (simp_all add: exampleAt_def callerStore_def twoEpochs_def fullOptions_def)

text \<open>
  C1, as the code has it.  \<open>recordCost\<close> puts every new cost in front of the older ones,
  and \<open>optimizeLearningRate\<close> reads the entries at index 0 and 1 as the two most recent
  costs.  So the cost history is exposed most recent first: when \<open>train\<close> runs \<open>k\<close> epochs
  on a well-shaped instance, it returns, and the costs of these epochs stand in front of
  the entries that were there, in reverse epoch order; the entry at index \<open>i < k\<close> is the
  cross-entropy at the end of epoch \<open>k - 1 - i\<close>.
\<close>

theorem costHistory_most_recent_first:
  assumes "wellShaped n c s" and "fullOptions (store s (options s))"
    and "iterations (store s (options s)) = Some k"
    and "batchSize (store s (options s)) = Some b"
  shows "\<exists>s'. train s = Inr s' \<and>
           length (epochStates (nat k) (Count (int n div b)) s) = nat k \<and>
           costHistory s' =
             rev (map crossEntropy (epochStates (nat k) (Count (int n div b)) s)) @ costHistory s \<and>
           (\<forall>i<nat k. costHistory s' ! i =
                        crossEntropy (epochStates (nat k) (Count (int n div b)) s ! (nat k - 1 - i)))"
proof -
  let ?q = "Count (int n div b)"
  let ?es = "epochStates (nat k) ?q s"
  from assms(2,4) obtain lr where o: "learningRate (store s (options s)) = Some lr" "1 \<le> b"
    by (auto simp: fullOptions_def)
  from train_total[OF assms(1,2,3)] obtain s' where s': "train s = Inr s'" by blast
  from assms(1) have "rowsT (features s) = n"
    by (simp add: wellShaped_def hasShape_def rowsT_def)
  then have "batchQuantity (rowsT (features s)) (batchSize (store s (options s))) = ?q"
    using assms(4) o(2) by (simp add: batchQuantity_def)
  with s' have "epochLoop 0 ?q s = Inr s'" by (simp add: train_def)
  from epochLoop_costs[OF assms(1) o(1) assms(4) o(2) assms(3) refl this]
  have c: "costHistory s' = rev (map crossEntropy ?es) @ costHistory s" and l: "length ?es = nat k"
    by simp_all
  have "costHistory s' ! i = crossEntropy (?es ! (nat k - 1 - i))" if "i < nat k" for i
  proof -
    have "costHistory s' ! i = rev (map crossEntropy ?es) ! i"
      unfolding c using that l by (simp add: nth_append)
    also have "\<dots> = map crossEntropy ?es ! (nat k - 1 - i)"
      using that l by (simp add: rev_nth)
    also have "\<dots> = crossEntropy (?es ! (nat k - 1 - i))"
      using that l by simp
    finally show ?thesis .
  qed
  with s' c l show ?thesis by blast
qed

theorem costHistory_most_recent_first_witness:
  "wellShaped 2 2 (exampleAt 0 [] 1) \<and>
   fullOptions (store (exampleAt 0 [] 1) (options (exampleAt 0 [] 1))) \<and>
   train (exampleAt 0 [] 1) =
     Inr (exampleAt (3/2 - sigmoid (1/2))
            [- ln (sigmoid (3/2 - sigmoid (1/2))), - ln (sigmoid (1/2))] (21/20)) \<and>
   costHistory (exampleAt (3/2 - sigmoid (1/2))
            [- ln (sigmoid (3/2 - sigmoid (1/2))), - ln (sigmoid (1/2))] (21/20)) =
     rev (map crossEntropy (epochStates 2 (Count 1) (exampleAt 0 [] 1)))"
proof -
  have h: "wellShaped 2 2 (exampleAt 0 [] 1)"
    "fullOptions (store (exampleAt 0 [] 1) (options (exampleAt 0 [] 1)))"
    "iterations (store (exampleAt 0 [] 1) (options (exampleAt 0 [] 1))) = Some 2"
    "batchSize (store (exampleAt 0 [] 1) (options (exampleAt 0 [] 1))) = Some 2"
    by (simp_all add: example_wellShaped example_options)
  have e: "costHistory (exampleAt 0 [] 1) = []" by (simp add: exampleAt_def)
  show ?thesis
    using h costHistory_most_recent_first[OF h]
    by (simp add: example_train e)
qed

text \<open>
  C1, as the specification states it (the entry at index \<open>i\<close> is the cost of epoch \<open>i\<close>),
  fails on the running example trained for two epochs: the entry at index 0 is the cost
  of the second epoch, which is smaller than the cost of the first.
\<close>

theorem costHistory_chronological_counterexample:
  "constructor callerStore 1 [[0], [2]] [[0], [1]] (Some 0) = Inr (exampleAt 0 [] 1) \<and>
   iterations (store (exampleAt 0 [] 1) (options (exampleAt 0 [] 1))) = Some 2 \<and>
   train (exampleAt 0 [] 1) =
     Inr (exampleAt (3/2 - sigmoid (1/2))
            [- ln (sigmoid (3/2 - sigmoid (1/2))), - ln (sigmoid (1/2))] (21/20)) \<and>
   costHistory (exampleAt (3/2 - sigmoid (1/2))
            [- ln (sigmoid (3/2 - sigmoid (1/2))), - ln (sigmoid (1/2))] (21/20)) ! 0
     \<noteq> crossEntropy (epochStates 2 (Count 1) (exampleAt 0 [] 1) ! 0)"
proof -
  have "costHistory (exampleAt (3/2 - sigmoid (1/2))
            [- ln (sigmoid (3/2 - sigmoid (1/2))), - ln (sigmoid (1/2))] (21/20)) ! 0
        = - ln (sigmoid (3/2 - sigmoid (1/2)))"
    by (simp add: exampleAt_def)
  moreover have "crossEntropy (epochStates 2 (Count 1) (exampleAt 0 [] 1) ! 0) = - ln (sigmoid (1/2))"
    by (simp add: example_epochStates example_crossEntropy)
  ultimately show ?thesis
    using example_cost_decreases
    by (simp add: example_constructor example_train example_options)
qed

section \<open>The moments and the options object over the life of an instance\<close>

lemma example_moments:
  "mean (exampleAt t h lr) = Some [1]" "variance (exampleAt t h lr) = Some [1]"
  "momentsMean [[0], [2]] = [1]" "momentsVariance [[0], [2]] = [1]"
  by (simp_all add: exampleAt_def momentsMean_def momentsVariance_def colsT_def column_def
      numeral_2_eq_2)

lemma example_predict:
  "\<exists>p. predict [[3]] (exampleAt t h lr) = Inr (p, exampleAt t h lr)"
proof -
  have "preprocessFeatures [[3]] (exampleAt t h lr) =
          Inr (map (processedRow [1] [1]) [[3]], exampleAt t h lr)"
    by (rule preprocessFeatures_stored[OF example_moments(1,2)]) simp_all
  moreover have "decisionBoundary (store (exampleAt t h lr) (options (exampleAt t h lr))) = Some (1/2)"
    by (simp add: exampleAt_def callerStore_def twoEpochs_def)
  moreover have "weights (exampleAt t h lr) = [[0], [t]]" by (simp add: exampleAt_def)
  ultimately show ?thesis
    by (simp add: predict_def matMul_def colsT_def rowsT_def processedRow_def)
qed

lemma example_calls:
  "performAll [Train, Predict [[3]]] (exampleAt 0 [] 1) =
     Inr (exampleAt (3/2 - sigmoid (1/2))
            [- ln (sigmoid (3/2 - sigmoid (1/2))), - ln (sigmoid (1/2))] (21/20))"
proof -
  obtain p where "predict [[3]] (exampleAt (3/2 - sigmoid (1/2))
            [- ln (sigmoid (3/2 - sigmoid (1/2))), - ln (sigmoid (1/2))] (21/20)) =
      Inr (p, exampleAt (3/2 - sigmoid (1/2))
            [- ln (sigmoid (3/2 - sigmoid (1/2))), - ln (sigmoid (1/2))] (21/20))"
    using example_predict by blast
  then show ?thesis by (simp add: example_train)
qed

text \<open>
  C6.  The constructor's call of \<open>preprocessFeatures\<close> computes the mean and the variance of
  every column of the training features and stores them.  Whatever calls of \<open>train\<close>,
  \<open>predict\<close> and \<open>test\<close> follow and return, the instance still holds these moments, and every
  later call of \<open>preprocessFeatures\<close> that returns leaves the instance as it is and
  answers with the rows \<open>(x - mean) / sqrt variance\<close> behind a leading 1, for the stored
  mean and variance.
\<close>

theorem moments_computed_once:
  assumes "constructor st fresh fs ls optArg = Inr s0" and "performAll cs s0 = Inr s"
  shows "mean s0 = Some (momentsMean fs) \<and> variance s0 = Some (momentsVariance fs) \<and>
         mean s = Some (momentsMean fs) \<and> variance s = Some (momentsVariance fs) \<and>
         (\<forall>raw P s'. preprocessFeatures raw s = Inr (P, s') \<longrightarrow>
            s' = s \<and> P = map (processedRow (momentsMean fs) (momentsVariance fs)) raw)"
proof -
  note m0 = constructorD(4,5)[OF assms(1)]
  have ev: "evolves s0 s" by (rule performAll_frame[OF m0 assms(2)])
  then have m: "mean s = Some (momentsMean fs)" "variance s = Some (momentsVariance fs)"
    using m0 by (simp_all add: evolves_def)
  show ?thesis
    using m0 m preprocessFeatures_storedD(1,2)[OF m] by blast
qed

theorem moments_computed_once_witness:
  "constructor callerStore 1 [[0], [2]] [[0], [1]] (Some 0) = Inr (exampleAt 0 [] 1) \<and>
   performAll [Train, Predict [[3]]] (exampleAt 0 [] 1) =
     Inr (exampleAt (3/2 - sigmoid (1/2))
            [- ln (sigmoid (3/2 - sigmoid (1/2))), - ln (sigmoid (1/2))] (21/20)) \<and>
   mean (exampleAt (3/2 - sigmoid (1/2))
            [- ln (sigmoid (3/2 - sigmoid (1/2))), - ln (sigmoid (1/2))] (21/20)) = Some [1] \<and>
   variance (exampleAt (3/2 - sigmoid (1/2))
            [- ln (sigmoid (3/2 - sigmoid (1/2))), - ln (sigmoid (1/2))] (21/20)) = Some [1] \<and>
   preprocessFeatures [[3], [-1]] (exampleAt (3/2 - sigmoid (1/2))
            [- ln (sigmoid (3/2 - sigmoid (1/2))), - ln (sigmoid (1/2))] (21/20)) =
     Inr ([[1, 2], [1, -2]], exampleAt (3/2 - sigmoid (1/2))
            [- ln (sigmoid (3/2 - sigmoid (1/2))), - ln (sigmoid (1/2))] (21/20))"
proof -
  let ?s = "exampleAt (3/2 - sigmoid (1/2))
            [- ln (sigmoid (3/2 - sigmoid (1/2))), - ln (sigmoid (1/2))] (21/20)"
  have h: "constructor callerStore 1 [[0], [2]] [[0], [1]] (Some 0) = Inr (exampleAt 0 [] 1)"
    "performAll [Train, Predict [[3]]] (exampleAt 0 [] 1) = Inr ?s"
    by (simp_all only: example_constructor example_calls)
  have p: "preprocessFeatures [[3], [-1]] ?s = Inr (map (processedRow [1] [1]) [[3], [-1]], ?s)"
    by (rule preprocessFeatures_stored[OF example_moments(1,2)]) simp_all
  show ?thesis
    using h p moments_computed_once[OF h]
    by (simp add: example_moments processedRow_def)
qed













section \<open>The batches of an epoch\<close>

lemma batchLoop_stepsOn:
  "features s = F \<Longrightarrow> labels s = Y \<Longrightarrow> batchSize (store s (options s)) = Some b \<Longrightarrow>
   1 \<le> b \<Longrightarrow> q * b \<le> int (length F) \<Longrightarrow> length Y = length F \<Longrightarrow>
   batchLoop j q s =
     stepsOn (map (\<lambda>j. (take (nat b) (drop (j * nat b) F), take (nat b) (drop (j * nat b) Y)))
                [j..<nat q]) s"
proof (induction j q s rule: batchLoop.induct)
  case (1 j q s)
  let ?slice = "\<lambda>j. (take (nat b) (drop (j * nat b) F), take (nat b) (drop (j * nat b) Y))"
  show ?case
  proof (cases "int j < q")
    case True
    then have "(int j + 1) * b \<le> q * b" using "1.prems"(4) by (intro mult_right_mono) simp_all
    with "1.prems"(5) have le: "int j * b + b \<le> int (length F)" by (simp add: algebra_simps)
    have nn: "0 \<le> int j * b" "0 \<le> b" using "1.prems"(4) by simp_all
    have idx: "nat (int j * b) = j * nat b" by (simp add: nat_mult_distrib)
    have step: "batchStep j s =
        gradientDescent (take (nat b) (drop (j * nat b) F)) (take (nat b) (drop (j * nat b) Y)) s"
      using "1.prems"(1,2,3,6) sliceRows_Inr[OF nn, of F] sliceRows_Inr[OF nn, of Y] le
      by (simp add: batchStep_def Let_def idx)
    have up: "[j..<nat q] = j # [j + 1..<nat q]"
      using True by (simp add: upt_conv_Cons)
    show ?thesis
    proof (cases "batchStep j s")
      case (Inl e)
      then have g: "gradientDescent (take (nat b) (drop (j * nat b) F))
          (take (nat b) (drop (j * nat b) Y)) s = Inl e"
        using step by simp
      show ?thesis
        by (subst batchLoop.simps) (simp add: up True Inl g)
    next
      case (Inr u)
      then have g: "gradientDescent (take (nat b) (drop (j * nat b) F))
          (take (nat b) (drop (j * nat b) Y)) s = Inr u"
        using step by simp
      from batchStep_frame[OF Inr] have f: "features u = features s" "labels u = labels s"
        "options u = options s" "store u = store s"
        by (simp_all add: evolves_def)
      have "batchLoop (j + 1) q u = stepsOn (map ?slice [j + 1..<nat q]) u"
        using "1.prems" f by (intro "1.IH"[OF True Inr]) simp_all
      then show ?thesis
        by (subst batchLoop.simps) (simp add: up True Inr g)
    qed
  next
    case False
    then show ?thesis by (subst batchLoop.simps) simp
  qed
qed

lemma batches_stepsOn:
  assumes "batchSize (store s (options s)) = Some b" "1 \<le> b"
    and "length (labels s) = length (features s)"
  shows "batches (batchQuantity (rowsT (features s)) (Some b)) s =
           stepsOn (batchesOf (nat b) (features s) (labels s)) s"
proof -
  let ?n = "length (features s)"
  have q: "batchQuantity (rowsT (features s)) (Some b) = Count (int ?n div b)"
    using assms(2) by (simp add: batchQuantity_def rowsT_def)
  have le: "int ?n div b * b \<le> int ?n"
    using assms(2) by (simp add: minus_mod_eq_div_mult[symmetric])
  have nq: "nat (int ?n div b) = ?n div nat b"
    using assms(2) by (simp add: nat_div_distrib)
  show ?thesis
    unfolding q batches_def batchesOf_def
    using batchLoop_stepsOn[OF refl refl assms(1,2) le assms(3), of 0] by (simp add: nq)
qed

lemma epochLoop_epochsOn:
  "iterations (store s (options s)) = Some k \<Longrightarrow> batchSize (store s (options s)) = Some b \<Longrightarrow>
   1 \<le> b \<Longrightarrow> length (labels s) = length (features s) \<Longrightarrow>
   features s = F \<Longrightarrow> labels s = Y \<Longrightarrow> q = batchQuantity (rowsT F) (Some b) \<Longrightarrow>
   epochLoop i q s = epochsOn (nat (k - int i)) (batchesOf (nat b) F Y) s"
proof (induction i q s rule: epochLoop.induct)
  case (1 i q s)
  let ?bs = "batchesOf (nat b) F Y"
  have b: "batches q s = stepsOn ?bs s"
    using batches_stepsOn[OF "1.prems"(2,3,4)] "1.prems"(5,6,7) by simp
  show ?case
  proof (cases "int i < k")
    case True
    then have n: "nat (k - int i) = Suc (nat (k - int (i + 1)))" by simp
    have ep: "epoch q s = (case stepsOn ?bs s of Inl e \<Rightarrow> Inl e
        | Inr s1 \<Rightarrow> (case recordCost s1 of Inl e \<Rightarrow> Inl e | Inr s2 \<Rightarrow> optimizeLearningRate s2))"
      by (simp add: epoch_def b)
    show ?thesis
    proof (cases "epoch q s")
      case (Inl e)
      have "epochsOn (Suc (nat (k - int (i + 1)))) ?bs s = Inl e"
        using Inl unfolding ep by (auto split: sum.splits)
      then show ?thesis
        unfolding n by (subst epochLoop.simps) (simp add: "1.prems"(1) True Inl)
    next
      case (Inr u)
      note ev = epoch_frame(1)[OF Inr]
      have "epochLoop (i + 1) q u = epochsOn (nat (k - int (i + 1))) ?bs u"
        using "1.prems" ev by (intro "1.IH"[OF "1.prems"(1) True Inr]) (simp_all add: evolves_def)
      moreover have "epochsOn (Suc (nat (k - int (i + 1)))) ?bs s = epochsOn (nat (k - int (i + 1))) ?bs u"
        using Inr unfolding ep by (auto split: sum.splits)
      ultimately show ?thesis
        unfolding n by (subst epochLoop.simps) (simp add: "1.prems"(1) True Inr)
    qed
  next
    case False
    with "1.prems"(1) show ?thesis by (subst epochLoop.simps) simp
  qed
qed

lemma batchesOf_truncated:
  assumes "0 < b" "length Y = length F"
  shows "batchesOf b (take (length F div b * b) F) (take (length F div b * b) Y) = batchesOf b F Y"
proof -
  let ?q = "length F div b"
  have len: "length (take (?q * b) F) div b = ?q"
    using assms(1) by (simp add: min_absorb2)
  have "take b (drop (j * b) (take (?q * b) Z)) = take b (drop (j * b) Z)" if "j < ?q" for j and Z :: tensor
  proof -
    have "(j + 1) * b \<le> ?q * b" using that by (intro mult_le_mono1) simp
    then have "b \<le> ?q * b - j * b" by (simp add: algebra_simps)
    then show ?thesis by (simp add: drop_take min_absorb1)
  qed
  then show ?thesis
    unfolding batchesOf_def len by simp
qed

lemma fourRows_constructor:
  "constructor (\<lambda>_. twoEpochs\<lparr>batchSize := Some 3\<rparr>) fresh [[0], [2], [0], [2]]
     [[0], [1], [0], [1]] (Some 0) = Inr fourRows"
  by (simp add: constructor_def preprocessFeatures_def tensor2d_def colsT_def standardize_def
      Let_def applyMoments_def zipRow_def momentsMean_def momentsVariance_def column_def zeros_def
      fourRows_def power2_eq_square)

lemma gradientDescent_data:
  "gradientDescent X y (s\<lparr>features := F', labels := Y'\<rparr>) =
     (case gradientDescent X y s of Inl e \<Rightarrow> Inl e
      | Inr t \<Rightarrow> Inr (t\<lparr>features := F', labels := Y'\<rparr>))"
  by (simp add: gradientDescent_def Let_def split: sum.splits option.splits)

lemma stepsOn_data:
  "stepsOn bs (s\<lparr>features := F', labels := Y'\<rparr>) =
     (case stepsOn bs s of Inl e \<Rightarrow> Inl e | Inr t \<Rightarrow> Inr (t\<lparr>features := F', labels := Y'\<rparr>))"
proof (induction bs arbitrary: s)
  case Nil
  show ?case by simp
next
  case (Cons xy bs)
  obtain X y where xy: "xy = (X, y)" by (cases xy)
  show ?case
    unfolding xy by (cases "gradientDescent X y s") (simp_all add: gradientDescent_data Cons.IH)
qed

text \<open>
  C7, as the code has it.  With \<open>k\<close> iterations and a batch size \<open>b\<close> of at least one, on
  an instance with as many label rows as feature rows, \<open>train\<close> is \<open>k\<close> epochs, each of which
  makes one gradient step on every batch of \<open>batchesOf b\<close>, in the order of the list, and
  then records the cost and adapts the learning rate (the two sides agree also where a
  step fails).  The list has \<open>length features div b\<close> batches, the row slices
  \<open>[j * b, (j + 1) * b)\<close> of the features and the labels in increasing \<open>j\<close>, and it is the
  list of the batches of the first \<open>(length features div b) * b\<close> rows alone; the gradient
  steps take their training data from the batches and read neither the features nor the
  labels the instance holds.  So a row at an index from \<open>(length features div b) * b\<close> on
  is in no batch and enters no gradient step.
\<close>

theorem train_batches:
  assumes "iterations (store s (options s)) = Some k"
    and "batchSize (store s (options s)) = Some b" "1 \<le> b"
    and "length (labels s) = length (features s)"
  shows "train s = epochsOn (nat k) (batchesOf (nat b) (features s) (labels s)) s \<and>
         length (batchesOf (nat b) (features s) (labels s)) = length (features s) div nat b \<and>
         batchesOf (nat b) (features s) (labels s) =
           batchesOf (nat b) (take (length (features s) div nat b * nat b) (features s))
                             (take (length (features s) div nat b * nat b) (labels s)) \<and>
         (\<forall>F' Y'. stepsOn (batchesOf (nat b) (features s) (labels s))
                    (s\<lparr>features := F', labels := Y'\<rparr>) =
                  (case stepsOn (batchesOf (nat b) (features s) (labels s)) s of
                     Inl e \<Rightarrow> Inl e
                   | Inr t \<Rightarrow> Inr (t\<lparr>features := F', labels := Y'\<rparr>)))"
proof -
  have "train s = epochsOn (nat k) (batchesOf (nat b) (features s) (labels s)) s"
    unfolding train_def
    using epochLoop_epochsOn[OF assms refl refl, of _ 0] assms(2) by simp
  moreover have "0 < nat b" using assms(3) by simp
  note batchesOf_truncated[OF this assms(4)]
  moreover have "length (batchesOf (nat b) (features s) (labels s)) = length (features s) div nat b"
    by (simp add: batchesOf_def)
  ultimately show ?thesis using stepsOn_data by simp
qed

theorem train_batches_witness:
  "constructor (\<lambda>_. twoEpochs\<lparr>batchSize := Some 3\<rparr>) 1 [[0], [2], [0], [2]]
     [[0], [1], [0], [1]] (Some 0) = Inr fourRows \<and>
   iterations (store fourRows (options fourRows)) = Some 2 \<and>
   batchSize (store fourRows (options fourRows)) = Some 3 \<and>
   length (labels fourRows) = length (features fourRows) \<and>
   batchesOf 3 (features fourRows) (labels fourRows) =
     [([[1, -1], [1, 1], [1, -1]], [[0], [1], [0]])] \<and>
   train fourRows = epochsOn 2 [([[1, -1], [1, 1], [1, -1]], [[0], [1], [0]])] fourRows"
proof -
  have h: "iterations (store fourRows (options fourRows)) = Some 2"
    "batchSize (store fourRows (options fourRows)) = Some 3" "(1::int) \<le> 3"
    "length (labels fourRows) = length (features fourRows)"
    by (simp_all add: fourRows_def twoEpochs_def)
  have b: "batchesOf 3 (features fourRows) (labels fourRows) =
     [([[1, -1], [1, 1], [1, -1]], [[0], [1], [0]])]"
    by (simp add: batchesOf_def fourRows_def)
  show ?thesis
    using h b train_batches[OF h] by (simp add: fourRows_constructor)
qed

section \<open>A training row outside the batches\<close>

lemma tailStore_apply [simp]: "tailStore a = tailOptions"
  by (simp add: tailStore_def)

lemma tail_shapes:
  "hasShape 3 1 (features (tailAt y w h lr))" "hasShape 3 1 (labels (tailAt y w h lr))"
  "hasShape 1 1 (weights (tailAt y w h lr))"
  "learningRate (store (tailAt y w h lr) (options (tailAt y w h lr))) = Some lr"
  by (simp_all add: tailAt_def hasShape_def)

lemma tail_wellShaped: "wellShaped 3 1 (tailAt y w h lr)"
  using tail_shapes(1-3)[of y w h lr] by (simp add: wellShaped_def)

lemma tail_constructor:
  "constructor tailStore fresh [[], [], []] [[1], [1], [y]] (Some 0) = Inr (tailAt y 0 [] 4)"
proof -
  have "tailStore = tailStore(0 := tailOptions\<lparr>learningRate := Some 4\<rparr>)"
    by (simp add: fun_eq_iff tailOptions_def)
  then show ?thesis
    by (simp add: constructor_def preprocessFeatures_def tensor2d_def colsT_def standardize_def
      Let_def applyMoments_def zipRow_def momentsMean_def momentsVariance_def zeros_def tailAt_def)
qed

lemma tail_gradientDescent:
  "gradientDescent [[1], [1]] [[1], [1]] (tailAt y w h lr) =
     Inr (tailAt y (w + lr * (1 - sigmoid w)) h lr)"
proof -
  have X: "hasShape 2 1 [[1], [1::real]]" by (simp add: hasShape_def)
  have pos: "(0::nat) < 2" "(0::nat) < 1" by simp_all
  have "gradientDescent [[1], [1]] [[1], [1]] (tailAt y w h lr) =
     Inr (tailAt y w h lr\<lparr>weights := [[w + lr * (1 - sigmoid w)]]\<rparr>)"
    by (subst gradientDescent_hasShape[OF X X tail_shapes(3) pos tail_shapes(4)])
       (simp add: tailAt_def tab_def numeral_2_eq_2 lessThan_Suc field_simps)
  then show ?thesis by (simp add: tailAt_def)
qed

lemma tail_crossEntropy: "crossEntropy (tailAt y w h lr) = tailCost y w"
  by (simp add: crossEntropy_def tailAt_def tailCost_def numeral_3_eq_3 lessThan_Suc algebra_simps)

lemma tail_recordCost:
  "recordCost (tailAt y w h lr) = Inr (tailAt y w (tailCost y w # h) lr)"
  using recordCost_value[OF tail_wellShaped, of y w h lr]
  by (simp add: tail_crossEntropy) (simp add: tailAt_def)

lemma tail_batches:
  "batches (Count 1) (tailAt y w h lr) = Inr (tailAt y (w + lr * (1 - sigmoid w)) h lr)"
proof -
  have b: "batchSize (store (tailAt y w h lr) (options (tailAt y w h lr))) = Some 2"
    by (simp add: tailAt_def tailOptions_def)
  have f: "features (tailAt y w h lr) = [[1], [1], [1]]" "labels (tailAt y w h lr) = [[1], [1], [y]]"
    by (simp_all add: tailAt_def)
  have "batchStep 0 (tailAt y w h lr) = Inr (tailAt y (w + lr * (1 - sigmoid w)) h lr)"
    by (simp add: batchStep_def b f sliceRows_def tail_gradientDescent)
  then show ?thesis
    by (simp add: batches_def batchLoop.simps[of 0] batchLoop.simps[of "Suc 0"])
qed

lemma tail_epoch_first:
  "epoch (Count 1) (tailAt y w [] lr) =
     Inr (tailAt y (w + lr * (1 - sigmoid w)) [tailCost y (w + lr * (1 - sigmoid w))] lr)"
  by (simp add: epoch_def tail_batches tail_recordCost optimizeLearningRate_def)
     (simp add: tailAt_def)

lemma tail_epoch_next:
  "epoch (Count 1) (tailAt y w (c # h) lr) =
     Inr (tailAt y (w + lr * (1 - sigmoid w)) (tailCost y (w + lr * (1 - sigmoid w)) # c # h)
            (if tailCost y (w + lr * (1 - sigmoid w)) > c then lr / 2 else lr * (105/100)))"
  by (simp add: epoch_def tail_batches tail_recordCost optimizeLearningRate_def)
     (simp add: tailAt_def)


lemma epochLoop_step:
  "iterations (store s (options s)) = Some n \<Longrightarrow> int i < n \<Longrightarrow> epoch q s = Inr u \<Longrightarrow>
   epochLoop i q s = epochLoop (Suc i) q u"
  by (subst epochLoop.simps) simp

lemma epochLoop_done:
  "iterations (store s (options s)) = Some n \<Longrightarrow> \<not> int i < n \<Longrightarrow> epochLoop i q s = Inr s"
  by (subst epochLoop.simps) simp

lemma tail_trainedWeights:
  "trainedWeights (tailAt y 0 [] 4) =
     Some [[2 + 4 * (1 - sigmoid 2) +
            (if tailCost y (2 + 4 * (1 - sigmoid 2)) > tailCost y 2 then 2 else 21/5) *
              (1 - sigmoid (2 + 4 * (1 - sigmoid 2)))]]"
proof -
  let ?q = "Count 1"
  let ?w2 = "2 + 4 * (1 - sigmoid 2)"
  let ?c1 = "tailCost y 2"
  let ?c2 = "tailCost y ?w2"
  let ?lr2 = "if ?c2 > ?c1 then 4 / 2 else 4 * (105/100)"
  let ?w3 = "?w2 + ?lr2 * (1 - sigmoid ?w2)"
  let ?c3 = "tailCost y ?w3"
  let ?lr3 = "if ?c3 > ?c2 then ?lr2 / 2 else ?lr2 * (105/100)"
  have q: "batchQuantity (rowsT (features (tailAt y 0 [] 4)))
             (batchSize (store (tailAt y 0 [] 4) (options (tailAt y 0 [] 4)))) = ?q"
    by (simp add: batchQuantity_def tailAt_def tailOptions_def rowsT_def)
  have it: "iterations (store (tailAt y w h lr) (options (tailAt y w h lr))) = Some 3" for w h lr
    by (simp add: tailAt_def tailOptions_def)
  have e1: "epoch ?q (tailAt y 0 [] 4) = Inr (tailAt y 2 [?c1] 4)"
    using tail_epoch_first[of y 0 4] by simp
  have e2: "epoch ?q (tailAt y 2 [?c1] 4) = Inr (tailAt y ?w2 [?c2, ?c1] ?lr2)"
    by (rule tail_epoch_next)
  have e3: "epoch ?q (tailAt y ?w2 [?c2, ?c1] ?lr2) = Inr (tailAt y ?w3 [?c3, ?c2, ?c1] ?lr3)"
    by (rule tail_epoch_next)
  have "train (tailAt y 0 [] 4) = epochLoop 0 ?q (tailAt y 0 [] 4)"
    by (simp add: train_def q)
  also have "\<dots> = epochLoop (Suc 0) ?q (tailAt y 2 [?c1] 4)"
    by (rule epochLoop_step[OF it _ e1]) simp
  also have "\<dots> = epochLoop (Suc (Suc 0)) ?q (tailAt y ?w2 [?c2, ?c1] ?lr2)"
    by (rule epochLoop_step[OF it _ e2]) simp
  also have "\<dots> = epochLoop (Suc (Suc (Suc 0))) ?q (tailAt y ?w3 [?c3, ?c2, ?c1] ?lr3)"
    by (rule epochLoop_step[OF it _ e3]) simp
  also have "\<dots> = Inr (tailAt y ?w3 [?c3, ?c2, ?c1] ?lr3)"
    by (rule epochLoop_done[OF it]) simp
  finally have "trainedWeights (tailAt y 0 [] 4) = Some [[?w3]]"
    by (simp add: trainedWeights_def tailAt_def)
  then show ?thesis by simp
qed

lemma ln_one_minus_sigmoid: "ln (1 - sigmoid w) = ln (sigmoid w) - w"
proof -
  have "1 - sigmoid w = exp (- w) * sigmoid w"
    using sigmoid_minus[of w] sigmoid_def[of w] sigmoid_def[of "- w"]
    by (simp add: field_simps exp_minus add_pos_pos)
  then show ?thesis
    using sigmoid_bounds(1)[of w] by (simp add: ln_mult)
qed

lemma tailCost_one: "tailCost 1 w = - ln (sigmoid w)"
  by (simp add: tailCost_def)

lemma tailCost_zero: "tailCost 0 w = ln (1 + exp (- w)) + w / 3"
proof -
  have "ln (sigmoid w) = - ln (1 + exp (- w))"
    by (simp add: sigmoid_def ln_div add_pos_pos)
  then have "tailCost 0 w = - (1 / 3) * (- 3 * ln (1 + exp (- w)) - w)"
    by (simp add: tailCost_def ln_one_minus_sigmoid)
  then show ?thesis by (simp add: field_simps)
qed

lemma tail_weight_grows: "2 < 2 + 4 * (1 - sigmoid 2)"
  using sigmoid_bounds(2)[of 2] by simp

lemma tailCost_one_decreases: "\<not> tailCost 1 (2 + 4 * (1 - sigmoid 2)) > tailCost 1 2"
proof -
  have "sigmoid 2 < sigmoid (2 + 4 * (1 - sigmoid 2))"
    using tail_weight_grows by (rule sigmoid_strict_mono)
  then have "ln (sigmoid 2) < ln (sigmoid (2 + 4 * (1 - sigmoid 2)))"
    using sigmoid_bounds(1)[of 2] by (subst ln_less_cancel_iff) (auto intro: less_trans)
  then show ?thesis by (simp add: tailCost_one)
qed

lemma tailCost_zero_increases: "tailCost 0 (2 + 4 * (1 - sigmoid 2)) > tailCost 0 2"
proof -
  define a where "a = exp (- (2::real))"
  define d where "d = 4 * a / (1 + a)"
  have a: "0 < a" by (simp add: a_def)
  have "3 \<le> exp (2::real)" using exp_ge_add_one_self[of 2] by simp
  then have a3: "a \<le> 1 / 3"
    unfolding a_def exp_minus by (simp add: field_simps)
  have d: "4 * (1 - sigmoid 2) = d"
    using a by (simp add: d_def sigmoid_def a_def[symmetric] field_simps)
  have la: "ln (1 + a) \<le> a" using a by (intro ln_add_one_self_le_self) simp
  have "3 * a * (1 + a) \<le> 4 * a" using a a3 by (simp add: algebra_simps)
  then have ad: "3 * a \<le> d" using a by (simp add: d_def field_simps)
  define P where "P = ln (1 + exp (- (2 + d)))"
  define L where "L = ln (1 + a)"
  have pos: "0 < P"
    unfolding P_def by (intro ln_gt_zero) simp
  have t0: "tailCost 0 2 = L + 2 / 3" by (simp add: tailCost_zero a_def L_def)
  have t1: "tailCost 0 (2 + d) = P + (2 + d) / 3"
    unfolding P_def by (rule tailCost_zero)
  have "L + 2 / 3 < P + (2 + d) / 3"
    using la[folded L_def] ad pos by argo
  then have "tailCost 0 2 < tailCost 0 (2 + d)"
    by (simp only: t0 t1)
  then show ?thesis by (simp only: d)
qed

text \<open>
  C7, as the specification states it (the rows of the final partial batch never contribute
  to any weight update), fails: such a row is in the cost that \<open>recordCost\<close> takes over all
  rows, the cost sets the learning rate, and the learning rate scales the later updates.
  Two instances of three rows with a batch size of two differ in the label of row 2 alone,
  which is in no batch; after the second epoch the learning rate is 4.2 for one and 2
  for the other, and the weights after three epochs differ.
\<close>

theorem tail_row_counterexample:
  "constructor tailStore 1 [[], [], []] [[1], [1], [1]] (Some 0) = Inr (tailAt 1 0 [] 4) \<and>
   constructor tailStore 1 [[], [], []] [[1], [1], [0]] (Some 0) = Inr (tailAt 0 0 [] 4) \<and>
   batchesOf 2 (features (tailAt 1 0 [] 4)) (labels (tailAt 1 0 [] 4)) = [([[1], [1]], [[1], [1]])] \<and>
   batchesOf 2 (features (tailAt 0 0 [] 4)) (labels (tailAt 0 0 [] 4)) = [([[1], [1]], [[1], [1]])] \<and>
   trainedWeights (tailAt 1 0 [] 4) =
     Some [[2 + 4 * (1 - sigmoid 2) + 21/5 * (1 - sigmoid (2 + 4 * (1 - sigmoid 2)))]] \<and>
   trainedWeights (tailAt 0 0 [] 4) =
     Some [[2 + 4 * (1 - sigmoid 2) + 2 * (1 - sigmoid (2 + 4 * (1 - sigmoid 2)))]] \<and>
   trainedWeights (tailAt 1 0 [] 4) \<noteq> trainedWeights (tailAt 0 0 [] 4)"
proof -
  have b: "batchesOf 2 (features (tailAt y 0 [] 4)) (labels (tailAt y 0 [] 4)) =
             [([[1], [1]], [[1], [1]])]" for y
    by (simp add: batchesOf_def tailAt_def)
  have A: "trainedWeights (tailAt 1 0 [] 4) =
     Some [[2 + 4 * (1 - sigmoid 2) + 21/5 * (1 - sigmoid (2 + 4 * (1 - sigmoid 2)))]]"
    using tailCost_one_decreases by (simp add: tail_trainedWeights)
  have B: "trainedWeights (tailAt 0 0 [] 4) =
     Some [[2 + 4 * (1 - sigmoid 2) + 2 * (1 - sigmoid (2 + 4 * (1 - sigmoid 2)))]]"
    using tailCost_zero_increases by (simp add: tail_trainedWeights)
  have "0 < 1 - sigmoid (2 + 4 * (1 - sigmoid 2))"
    using sigmoid_bounds(2)[of "2 + 4 * (1 - sigmoid 2)"] by simp
  then have "trainedWeights (tailAt 1 0 [] 4) \<noteq> trainedWeights (tailAt 0 0 [] 4)"
    unfolding A B by simp
  with A B b show ?thesis by (simp add: tail_constructor)
qed

end
